theory Spec2Isabelle
  imports Main "HOL-Library.AList" "HOL-Library.Char_ord" "HOL-Library.List_Lexorder"
    "HOL-Library.Word"
begin

section \<open>Values shared by the whole model\<close>

text \<open>
  The program is Python. Objects of class \<open>ModSpec\<close> are mutable and shared between the
  lists of a \<open>Patcher\<close> (the same object sits in \<open>remote\<close>, \<open>local\<close> and
  \<open>need_install\<close> at once), so the model keeps them in an explicit store: a reference is
  a natural number, the store maps every reference to the fields of the object, and the
  lists hold references. Comparison of two \<open>ModSpec\<close> objects with \<open>==\<close> (as
  \<open>list.remove\<close> and \<open>in\<close> do) is identity, because the class defines no
  \<open>__eq__\<close>; it is equality of references here.

  Parsed JSON is a tree. Floating point numbers do not occur in the documents the program
  reads and are left out.
\<close>

datatype json =
    JNull
  | JBool bool
  | JInt int
  | JStr string
  | JList "json list"
  | JObj "(string \<times> json) list"

datatype error =
    KeyError string
  | TypeError
  | ValueError
  | AttributeError
  | RuntimeError string
  | OSError

text \<open>Sequencing of steps that may raise: the first exception ends the computation.\<close>

definition and_then :: "error + 'a \<Rightarrow> ('a \<Rightarrow> error + 'b) \<Rightarrow> error + 'b" where
  "and_then r f = (case r of Inl e \<Rightarrow> Inl e | Inr x \<Rightarrow> f x)"

text \<open>\<open>d[k]\<close> on a parsed JSON value: a dict without the key raises \<open>KeyError\<close>, anything
  that is not a dict raises \<open>TypeError\<close> for a string key.\<close>

fun subscript :: "json \<Rightarrow> string \<Rightarrow> error + json" where
  "subscript (JObj kvs) k = (case map_of kvs k of None \<Rightarrow> Inl (KeyError k) | Some v \<Rightarrow> Inr v)"
| "subscript _ k = Inl TypeError"

datatype ModCategories = CORE | LIBRARY | COSMETIC | GAMEPLAY | UI | OTHER

text \<open>A lifecycle flag holds a Python \<open>bool\<close> (set by the constructor and by every
  assignment of the program) or an \<open>int\<close> (read from a manifest, whose layout stores the
  flags as integers).\<close>

datatype flag = FBool bool | FInt int

fun truthy :: "flag \<Rightarrow> bool" where
  "truthy (FBool b) = b"
| "truthy (FInt n) = (n \<noteq> 0)"

text \<open>\<open>int(x)\<close> on a flag: \<open>int(True) = 1\<close>, \<open>int(False) = 0\<close>, an \<open>int\<close> is itself.\<close>

fun int_of_flag :: "flag \<Rightarrow> int" where
  "int_of_flag (FBool b) = (if b then 1 else 0)"
| "int_of_flag (FInt n) = n"

text \<open>Python's \<open>==\<close> between two flag values: \<open>True == 1\<close> and \<open>False == 0\<close> hold.\<close>

definition flag_eq :: "flag \<Rightarrow> flag \<Rightarrow> bool" where
  "flag_eq a b = (int_of_flag a = int_of_flag b)"

type_synonym ref = nat

text \<open>Where a file lives: the download cache and the manifest cache of the patcher
  (by file name), the game directory (by relative path), or anywhere else on the disk
  (an archive the user picked).\<close>

datatype path = Cache string | Meta string | Root string | Ext string

text \<open>The fields of a \<open>ModSpec\<close>. \<open>archive\<close> is \<open>_archive\<close>: \<open>None\<close> stands for the empty
  string the constructor stores (the only falsy value it ever holds), \<open>Some p\<close> for a
  path. \<open>source\<close> is the attribute \<open>_source\<close> that \<open>addMod\<close> creates.\<close>

record ModSpec =
  archive :: "path option"
  mod_id :: string
  name :: string
  version :: "int list"
  gameVersion :: "int list"
  dependencies :: "json list"
  category :: ModCategories
  url :: string
  files :: "json list"
  ignore :: flag
  is_local :: flag
  is_remote :: flag
  need_update :: flag
  need_install :: flag
  need_uninstall :: flag
  source :: "ref option"

text \<open>\<open>ModSpec.__init__\<close> with its default arguments written out by the callers.\<close>

definition ModSpec_init ::
  "string \<Rightarrow> string \<Rightarrow> int list \<Rightarrow> string \<Rightarrow> json list \<Rightarrow> json list \<Rightarrow> ModCategories \<Rightarrow> int list \<Rightarrow> ModSpec" where
  "ModSpec_init i n v u fs deps cat gv =
     \<lparr> archive = None, mod_id = i, name = n, version = v, gameVersion = gv,
       dependencies = deps, category = cat, url = u, files = fs,
       ignore = FBool False, is_local = FBool False, is_remote = FBool False,
       need_update = FBool False, need_install = FBool False, need_uninstall = FBool False,
       source = None \<rparr>"

section \<open>Strings and numbers as Python reads and prints them\<close>

text \<open>A string is a list of characters, each a code point below 256; on such strings the
  functions below follow Python's \<open>str\<close>. The white space that \<open>int\<close> strips is what
  \<open>str.isspace\<close> accepts: the ASCII white space, the separators 28 to 31, the next-line
  character 133 and the no-break space 160.\<close>

definition is_space :: "char \<Rightarrow> bool" where
  "is_space c = ((of_char c :: nat) \<in> set [9, 10, 11, 12, 13, 28, 29, 30, 31, 32, 133, 160])"

definition is_digit :: "char \<Rightarrow> bool" where
  "is_digit c = (48 \<le> (of_char c :: nat) \<and> (of_char c :: nat) \<le> 57)"

definition py_strip :: "string \<Rightarrow> string" where
  "py_strip s = rev (dropWhile is_space (rev (dropWhile is_space s)))"

text \<open>The digits of a decimal literal: a digit, then digits each preceded by at most one
  underscore.\<close>

fun digits_ok :: "string \<Rightarrow> bool" where
  "digits_ok [] = False"
| "digits_ok [c] = is_digit c"
| "digits_ok (c # d # r) =
     (is_digit c \<and> (if d = CHR ''_'' then digits_ok r else digits_ok (d # r)))"

definition digits_val :: "string \<Rightarrow> int" where
  "digits_val s =
     foldl (\<lambda>a c. 10 * a + (int (of_char c) - 48)) 0 (filter (\<lambda>c. c \<noteq> CHR ''_'') s)"

text \<open>\<open>int(s)\<close> for a string: surrounding white space, one optional sign, decimal digits,
  at most 4300 of them (the interpreter's limit for the conversion of a string).
  \<open>None\<close> is the \<open>ValueError\<close>.\<close>

definition digits_int :: "string \<Rightarrow> int option" where
  "digits_int r =
     (if digits_ok r \<and> length (filter is_digit r) \<le> 4300 then Some (digits_val r) else None)"

definition py_int :: "string \<Rightarrow> int option" where
  "py_int s =
     (case py_strip s of
        [] \<Rightarrow> None
      | c # r \<Rightarrow>
          if c = CHR ''-'' then map_option uminus (digits_int r)
          else if c = CHR ''+'' then digits_int r
          else digits_int (c # r))"

text \<open>\<open>s.split(c)\<close> for a one-character separator; \<open>cur\<close> is the piece being read.\<close>

fun split_acc :: "char \<Rightarrow> string \<Rightarrow> string \<Rightarrow> string list" where
  "split_acc c cur [] = [cur]"
| "split_acc c cur (x # xs) =
     (if x = c then cur # split_acc c [] xs else split_acc c (cur @ [x]) xs)"

definition py_split :: "string \<Rightarrow> char \<Rightarrow> string list" where
  "py_split s c = split_acc c [] s"

text \<open>\<open>list(map(int, s.split(".")))\<close>.\<close>

definition parse_version :: "string \<Rightarrow> int list option" where
  "parse_version s = those (map py_int (py_split s CHR ''.''))"

text \<open>\<open>str(n)\<close> for an integer, and \<open>sep.join(xs)\<close>.\<close>

function str_nat :: "nat \<Rightarrow> string" where
  "str_nat n =
     (if n < 10 then [char_of (48 + n)] else str_nat (n div 10) @ [char_of (48 + n mod 10)])"
  by pat_completeness auto
termination
  by (relation "measure id") auto

declare str_nat.simps [simp del]

definition str_int :: "int \<Rightarrow> string" where
  "str_int i = (if i < 0 then CHR ''-'' # str_nat (nat (- i)) else str_nat (nat i))"

fun join :: "string \<Rightarrow> string list \<Rightarrow> string" where
  "join sep [] = []"
| "join sep [x] = x"
| "join sep (x # y # r) = x @ sep @ join sep (y # r)"

text \<open>\<open>s.lower()\<close>: the capital letters below 256 are \<open>A\<close> to \<open>Z\<close> and the code
  points 192 to 222 without the multiplication sign 215; the small letter is 32 further.\<close>

definition is_upper :: "char \<Rightarrow> bool" where
  "is_upper c =
     ((65 \<le> (of_char c :: nat) \<and> (of_char c :: nat) \<le> 90) \<or>
      (192 \<le> (of_char c :: nat) \<and> (of_char c :: nat) \<le> 222 \<and> (of_char c :: nat) \<noteq> 215))"

definition lower :: "string \<Rightarrow> string" where
  "lower s = map (\<lambda>c. if is_upper c then char_of ((of_char c :: nat) + 32) else c) s"

section \<open>Version comparison\<close>

text \<open>\<open>a < b\<close> on two Python lists of integers, as \<open>refreshMods\<close> applies it to the
  versions: the first position where the lists differ decides; when one list runs out
  first, it is the smaller.\<close>

fun list_lt :: "int list \<Rightarrow> int list \<Rightarrow> bool" where
  "list_lt [] [] = False"
| "list_lt [] (y # ys) = True"
| "list_lt (x # xs) [] = False"
| "list_lt (x # xs) (y # ys) = (if x = y then list_lt xs ys else x < y)"

section \<open>Building and serialising a \<open>ModSpec\<close>\<close>

text \<open>
  Python stores whatever value a document holds under a key and fails later, where the
  value is used. The record above is typed, so the model checks the type where the value
  is read: a string for \<open>id\<close>, \<open>name\<close> and \<open>url\<close>, a list of integers for the version, a
  list for \<open>files\<close> and \<open>dependencies\<close>, a boolean or an integer for a flag. On a
  document of the documented layout both agree.
\<close>

fun as_str :: "json \<Rightarrow> error + string" where
  "as_str (JStr s) = Inr s"
| "as_str _ = Inl TypeError"

fun as_list :: "json \<Rightarrow> error + json list" where
  "as_list (JList xs) = Inr xs"
| "as_list _ = Inl TypeError"

fun as_flag :: "json \<Rightarrow> error + flag" where
  "as_flag (JBool b) = Inr (FBool b)"
| "as_flag (JInt n) = Inr (FInt n)"
| "as_flag _ = Inl TypeError"

fun ints_of :: "json list \<Rightarrow> error + int list" where
  "ints_of [] = Inr []"
| "ints_of (JInt n # r) = and_then (ints_of r) (\<lambda>ns. Inr (n # ns))"
| "ints_of (_ # r) = Inl TypeError"

definition get_str :: "json \<Rightarrow> string \<Rightarrow> error + string" where
  "get_str d k = and_then (subscript d k) as_str"

definition get_list :: "json \<Rightarrow> string \<Rightarrow> error + json list" where
  "get_list d k = and_then (subscript d k) as_list"

definition get_ints :: "json \<Rightarrow> string \<Rightarrow> error + int list" where
  "get_ints d k = and_then (get_list d k) ints_of"

definition get_flag :: "json \<Rightarrow> string \<Rightarrow> error + flag" where
  "get_flag d k = and_then (subscript d k) as_flag"

text \<open>\<open>ModSpec.fromSpecFile\<close>, on the dictionary \<open>json.load\<close> returned. The category and
  the game version are not in a manifest: the constructor's defaults stay.\<close>

definition fromSpecFile :: "json \<Rightarrow> error + ModSpec" where
  "fromSpecFile d =
     and_then (get_str d ''id'') (\<lambda>i.
     and_then (get_str d ''name'') (\<lambda>n.
     and_then (get_ints d ''version'') (\<lambda>v.
     and_then (get_str d ''url'') (\<lambda>u.
     and_then (get_list d ''dependencies'') (\<lambda>deps.
     and_then (get_list d ''files'') (\<lambda>fs.
     and_then (subscript d ''config'') (\<lambda>config.
     and_then (get_flag config ''ignore'') (\<lambda>f1.
     and_then (get_flag config ''is_local'') (\<lambda>f2.
     and_then (get_flag config ''is_remote'') (\<lambda>f3.
     and_then (get_flag config ''need_update'') (\<lambda>f4.
     and_then (get_flag config ''need_install'') (\<lambda>f5.
     and_then (get_flag config ''need_uninstall'') (\<lambda>f6.
       Inr ((ModSpec_init i n v u fs deps OTHER [1, 0, 0])
              \<lparr> ignore := f1, is_local := f2, is_remote := f3,
                need_update := f4, need_install := f5, need_uninstall := f6 \<rparr>))))))))))))))"

text \<open>\<open>ModSpec.writeSpecFile\<close>: the dictionary handed to \<open>json.dump\<close>, keys in the order
  the method inserts them.\<close>

definition writeSpecFile :: "ModSpec \<Rightarrow> json" where
  "writeSpecFile r =
     JObj [(''config'',
              JObj [(''ignore'', JInt (int_of_flag (ignore r))),
                    (''is_local'', JInt (int_of_flag (is_local r))),
                    (''is_remote'', JInt (int_of_flag (is_remote r))),
                    (''need_update'', JInt (int_of_flag (need_update r))),
                    (''need_install'', JInt (int_of_flag (need_install r))),
                    (''need_uninstall'', JInt (int_of_flag (need_uninstall r)))]),
           (''id'', JStr (mod_id r)),
           (''name'', JStr (name r)),
           (''version'', JList (map JInt (version r))),
           (''url'', JStr (url r)),
           (''files'', JList (files r)),
           (''dependencies'', JList (dependencies r))]"

text \<open>\<open>list(map(int, d[k].split(".")))\<close>: a missing key, a value that is not a string
  (it has no \<open>split\<close>) and a piece that is not an integer each raise.\<close>

definition version_field :: "json \<Rightarrow> string \<Rightarrow> error + int list" where
  "version_field d k =
     and_then (subscript d k) (\<lambda>x.
       case x of
         JStr s \<Rightarrow> (case parse_version s of None \<Rightarrow> Inl ValueError | Some v \<Rightarrow> Inr v)
       | _ \<Rightarrow> Inl AttributeError)"

definition category_of :: "json \<Rightarrow> ModCategories" where
  "category_of c =
     (if c = JStr ''Core'' then CORE
      else if c = JStr ''Libraries'' then LIBRARY
      else if c = JStr ''Cosmetic'' then COSMETIC
      else if c = JStr ''UI Enhancements'' then UI
      else if c = JStr ''Gameplay'' then GAMEPLAY
      else OTHER)"

text \<open>A list or a dictionary cannot be a dictionary key.\<close>

fun hashable :: "json \<Rightarrow> bool" where
  "hashable (JList xs) = False"
| "hashable (JObj kvs) = False"
| "hashable _ = True"

text \<open>\<open>for i in d["downloads"]: downloads[i["type"]] = i\<close>. The dictionary is an
  association list with the latest entry first, so that a later entry replaces an earlier
  one of the same key.\<close>

fun collect_downloads :: "json list \<Rightarrow> (json \<times> json) list \<Rightarrow> error + (json \<times> json) list" where
  "collect_downloads [] acc = Inr acc"
| "collect_downloads (i # rest) acc =
     and_then (subscript i ''type'') (\<lambda>k.
       if hashable k then collect_downloads rest ((k, i) # acc) else Inl TypeError)"

text \<open>\<open>ModSpec.fromBeatMods\<close>. Only the parse of \<open>version\<close> stands inside a
  \<open>try\<close>; its bare \<open>except\<close> catches every exception.\<close>

definition fromBeatMods :: "json \<Rightarrow> string \<Rightarrow> error + ModSpec" where
  "fromBeatMods d type =
     and_then (get_str d ''_id'') (\<lambda>i.
     and_then (get_str d ''name'') (\<lambda>n.
     (let v = (case version_field d ''version'' of Inl e \<Rightarrow> [0, 0, 0] | Inr v \<Rightarrow> v) in
     and_then (version_field d ''gameVersion'') (\<lambda>gv.
     and_then (subscript d ''category'') (\<lambda>c.
     and_then (get_list d ''downloads'') (\<lambda>dl.
     and_then (collect_downloads dl []) (\<lambda>downloads.
     and_then (case map_of downloads (JStr type) of
                 Some x \<Rightarrow> Inr x
               | None \<Rightarrow>
                   (case map_of downloads (JStr ''universal'') of
                      None \<Rightarrow> Inl (RuntimeError
                                 (''No version found for application type '' @ [CHR 39] @ type @ [CHR 39]))
                    | Some x \<Rightarrow> Inr x)) (\<lambda>dl_spec.
     and_then (get_str dl_spec ''url'') (\<lambda>u.
     and_then (get_list dl_spec ''hashMd5'') (\<lambda>fs.
     and_then (get_list d ''dependencies'') (\<lambda>deps.
       Inr ((ModSpec_init i n v u fs deps (category_of c) gv)
              \<lparr> is_remote := FBool True \<rparr>))))))))))))"

section \<open>Archives and the outside world\<close>

text \<open>An entry of a zip archive: its name and its bytes. \<open>ZipInfo.is_dir\<close> holds for a
  name that ends in a slash.\<close>

record zipmember =
  filename :: string
  content :: string

definition is_dir :: "zipmember \<Rightarrow> bool" where
  "is_dir m = (filename m \<noteq> [] \<and> last (filename m) = CHR ''/'')"

text \<open>Reading an entry by name: the archive's name table keeps the last entry of a name.\<close>

definition read_name :: "zipmember list \<Rightarrow> string \<Rightarrow> error + string" where
  "read_name ms n =
     (case find (\<lambda>m. filename m = n) (rev ms) of
        None \<Rightarrow> Inl (KeyError n)
      | Some m \<Rightarrow> Inr (content m))"

text \<open>An open \<open>zipfile.ZipFile\<close>: the path it was opened from and its entries in
  archive order.\<close>

record zipfile =
  zfilename :: string
  members :: "zipmember list"

text \<open>
  What the program takes from libraries and from the world, as parameters:
  \<^item> \<open>md5hex\<close>: \<open>hashlib.md5\<close> of bytes, as hexadecimal digits;
  \<^item> \<open>zip_open\<close>: the entries of the archive that some bytes are, \<open>None\<close> when
    \<open>zipfile.ZipFile\<close> refuses them;
  \<^item> \<open>loads\<close> and \<open>dumps\<close>: \<open>json.load\<close> (\<open>None\<close> when the text is not JSON) and
    \<open>json.dump\<close>;
  \<^item> \<open>fetch\<close>: the bytes a download of an address returns, \<open>None\<close> when it fails;
  \<^item> \<open>listing\<close>: the parsed answer of the remote catalog, \<open>None\<close> when the request fails;
  \<^item> \<open>writable\<close>: whether a file can be created or overwritten at a path;
  \<^item> \<open>listdir\<close>: the order in which \<open>iterdir()\<close> yields the files that exist (a
    rearrangement of them; the order is the operating system's).
\<close>

record env =
  md5hex :: "string \<Rightarrow> string"
  zip_open :: "string \<Rightarrow> zipmember list option"
  loads :: "string \<Rightarrow> json option"
  dumps :: "json \<Rightarrow> string"
  fetch :: "string \<Rightarrow> string option"
  listing :: "json list option"
  writable :: "path \<Rightarrow> bool"
  listdir :: "(path \<times> string) list \<Rightarrow> (path \<times> string) list"

text \<open>\<open>validateFile\<close>.\<close>

definition validateFile :: "env \<Rightarrow> string \<Rightarrow> string \<Rightarrow> bool" where
  "validateFile e dat hash = (lower (md5hex e dat) = lower hash)"

text \<open>\<open>pathlib.Path(p).name\<close> for the path of a file: what follows the last slash.\<close>

definition basename :: "string \<Rightarrow> string" where
  "basename p = rev (takeWhile (\<lambda>c. c \<noteq> CHR ''/'') (rev p))"

text \<open>
  \<open>ModSpec.fromArchive\<close>. \<open>archive_spec\<close> is the first part: the entry \<open>spec.json\<close>, when
  the archive has one and it loads as a manifest. The second attempt of the source,
  \<open>ModSpec.fromBeatMods(json.load(f))\<close>, hands the archive object itself to \<open>json.load\<close>,
  whose call of \<open>f.read()\<close> lacks the entry name and raises \<open>TypeError\<close>; the bare
  \<open>except\<close> swallows it, so that attempt never yields a record.
  \<open>archive_key\<close> is the package key: every entry name, in the order of \<open>namelist()\<close>, is
  fed to one MD5 computation.
\<close>

definition archive_spec :: "env \<Rightarrow> zipfile \<Rightarrow> ModSpec option" where
  "archive_spec e f =
     (case read_name (members f) ''spec.json'' of
        Inl err \<Rightarrow> None
      | Inr text \<Rightarrow>
          (case loads e text of
             None \<Rightarrow> None
           | Some d \<Rightarrow> (case fromSpecFile d of Inl err \<Rightarrow> None | Inr s \<Rightarrow> Some s)))"

definition namelist :: "zipfile \<Rightarrow> string list" where
  "namelist f = map filename (members f)"

definition archive_key :: "env \<Rightarrow> zipfile \<Rightarrow> string" where
  "archive_key e f = md5hex e (concat (namelist f))"

fun archive_hashes :: "env \<Rightarrow> zipfile \<Rightarrow> string list \<Rightarrow> error + json list" where
  "archive_hashes e f [] = Inr []"
| "archive_hashes e f (n # ns) =
     and_then (read_name (members f) n) (\<lambda>bytes.
     and_then (archive_hashes e f ns) (\<lambda>hs.
       Inr (JObj [(''file'', JStr n), (''hash'', JStr (md5hex e bytes))] # hs)))"

definition fromArchive :: "env \<Rightarrow> zipfile \<Rightarrow> error + ModSpec" where
  "fromArchive e f =
     (case archive_spec e f of
        Some s \<Rightarrow> Inr s
      | None \<Rightarrow>
          and_then (archive_hashes e f (namelist f)) (\<lambda>hashes.
            Inr ((ModSpec_init (archive_key e f) (basename (zfilename f)) [1, 0, 0] ''local''
                    hashes [] OTHER [1, 0, 0])
                   \<lparr> archive := Some (Ext (zfilename f)) \<rparr>)))"

section \<open>The patcher: queues and catalogs\<close>

text \<open>What the program does to the disk and what it reports, in the order it happens:
  a file removed, a file written on behalf of a record, or the failure of one phase for
  one record (the \<open>logger.exception\<close> calls of \<open>patch\<close>).\<close>

datatype event =
    FileRemoved path
  | FileWritten ref path
  | UninstallFailed ref
  | DownloadFailed ref
  | InstallFailed ref

text \<open>The lists of a \<open>Patcher\<close> and the store of the \<open>ModSpec\<close> objects they refer to. The
  three queues carry the suffix \<open>_list\<close> (and \<open>local\<close> too) because the flags of a
  \<open>ModSpec\<close> have the same names in the source. \<open>fs\<close> is the disk: the files that exist,
  with their bytes (in the order they were created, which nothing depends on: a
  directory is listed in the order \<open>listdir\<close> gives). \<open>trace\<close> records the
  events so far. \<open>next_ref\<close> is the reference the next new object gets.\<close>

record Patcher =
  heap :: "ref \<Rightarrow> ModSpec"
  remote :: "ref list"
  local_list :: "ref list"
  need_install_list :: "ref list"
  need_uninstall_list :: "ref list"
  need_update_list :: "ref list"
  app_type :: string
  fs :: "(path \<times> string) list"
  trace :: "event list"
  next_ref :: ref

text \<open>What a Python call hands back: \<open>None\<close>, \<open>True\<close> or \<open>False\<close>.\<close>

datatype pyret = PyNone | PyTrue | PyFalse

text \<open>\<open>for mod in xs: if mod.name == n: ... break\<close>: the first object of the list with
  that name.\<close>

definition find_name :: "(ref \<Rightarrow> ModSpec) \<Rightarrow> string \<Rightarrow> ref list \<Rightarrow> ref option" where
  "find_name h n xs = find (\<lambda>m. name (h m) = n) xs"

text \<open>
  \<open>Patcher.addMod\<close>. The method calls itself for every dependency that is in the remote
  list and not in the local one, so the model carries fuel: the first argument bounds the
  depth of the calls, and \<open>None\<close> means the bound was hit. (The interpreter's own stack
  limit is not modelled.) A result \<open>Some (r, s)\<close> is the state \<open>s\<close> the call leaves and
  either the value it returned or the exception it raised; an exception leaves the
  mutations made before it in place.

  \<open>addMod_deps\<close> is step four, the loop over \<open>spec.dependencies\<close>, with the recursive call
  passed in as \<open>rec\<close>.
\<close>

fun addMod_deps ::
  "(Patcher \<Rightarrow> ref \<Rightarrow> ref option \<Rightarrow> ((error + pyret) \<times> Patcher) option) \<Rightarrow>
   Patcher \<Rightarrow> ref \<Rightarrow> json list \<Rightarrow> ((error + pyret) \<times> Patcher) option" where
  "addMod_deps rec s spec [] = Some (Inr PyTrue, s)"
| "addMod_deps rec s spec (depend # rest) =
     (case subscript depend ''name'' of
        Inl e \<Rightarrow> Some (Inl e, s)
      | Inr dep \<Rightarrow>
          (case find (\<lambda>m. JStr (name (heap s m)) = dep) (local_list s) of
             Some m \<Rightarrow> addMod_deps rec s spec rest
           | None \<Rightarrow>
               (case find (\<lambda>m. JStr (name (heap s m)) = dep) (remote s) of
                  None \<Rightarrow> addMod_deps rec s spec rest
                | Some m \<Rightarrow>
                    (case rec s m (Some spec) of
                       None \<Rightarrow> None
                     | Some (Inl e, s') \<Rightarrow> Some (Inl e, s')
                     | Some (Inr v, s') \<Rightarrow> addMod_deps rec s' spec rest))))"

primrec addMod ::
  "nat \<Rightarrow> Patcher \<Rightarrow> ref \<Rightarrow> ref option \<Rightarrow> ((error + pyret) \<times> Patcher) option" where
  "addMod 0 = (\<lambda>s spec fromSpec. None)"
| "addMod (Suc k) = (\<lambda>s spec fromSpec.
     (case find_name (heap s) (name (heap s spec)) (local_list s) of
        Some m \<Rightarrow>
          if truthy (need_uninstall (heap s m))
          then Some (Inr PyNone,
                 s\<lparr> need_uninstall_list := remove1 m (need_uninstall_list s),
                    heap := (heap s)(m := (heap s m)\<lparr> need_uninstall := FBool False \<rparr>) \<rparr>)
          else Some (Inr PyNone, s)
      | None \<Rightarrow>
          (let spec' = (case find_name (heap s) (name (heap s spec)) (remote s) of
                          Some m \<Rightarrow> m | None \<Rightarrow> spec);
               h1 = (case fromSpec of
                       None \<Rightarrow> heap s
                     | Some f \<Rightarrow> (heap s)(spec' := (heap s spec')\<lparr> source := Some f \<rparr>));
               h2 = h1(spec' := (h1 spec')\<lparr> need_install := FBool True \<rparr>);
               s3 = s\<lparr> heap := h2,
                       local_list := local_list s @ [spec'],
                       need_install_list := need_install_list s @ [spec'] \<rparr>
           in addMod_deps (addMod k) s3 spec' (dependencies (heap s3 spec')))))"

text \<open>
  \<open>Patcher.removeMod\<close>. \<open>dep_hits\<close> is the inner loop over one record's dependencies,
  \<open>scan_local\<close> the outer loop over the local list; they collect the name of a record
  once for every entry of its dependency list that names the target. \<open>list.remove\<close> of
  an object that is not in the list raises \<open>ValueError\<close>.
\<close>

fun dep_hits :: "string \<Rightarrow> string \<Rightarrow> json list \<Rightarrow> error + string list" where
  "dep_hits target owner [] = Inr []"
| "dep_hits target owner (dep # rest) =
     and_then (subscript dep ''name'') (\<lambda>v.
     and_then (dep_hits target owner rest) (\<lambda>ns.
       Inr (if v = JStr target then owner # ns else ns)))"

fun scan_local :: "(ref \<Rightarrow> ModSpec) \<Rightarrow> string \<Rightarrow> ref list \<Rightarrow> error + string list" where
  "scan_local h target [] = Inr []"
| "scan_local h target (m # ms) =
     and_then (dep_hits target (name (h m)) (dependencies (h m))) (\<lambda>a.
     and_then (scan_local h target ms) (\<lambda>b. Inr (a @ b)))"

definition conflict_message :: "string list \<Rightarrow> string" where
  "conflict_message deps =
     ''Other mods depend on this package. Uninstall the following mods first: '' @ join '', '' deps"

definition removeMod :: "Patcher \<Rightarrow> ref \<Rightarrow> bool \<Rightarrow> (error + pyret) \<times> Patcher" where
  "removeMod s spec force =
     (if truthy (need_install (heap s spec)) then
        (if spec \<in> set (need_install_list s) then
           (let s1 = s\<lparr> need_install_list := remove1 spec (need_install_list s),
                        heap := (heap s)(spec := (heap s spec)\<lparr> need_install := FBool False \<rparr>) \<rparr>
            in if spec \<in> set (local_list s1)
               then (Inr PyTrue, s1\<lparr> local_list := remove1 spec (local_list s1) \<rparr>)
               else (Inl ValueError, s1))
         else (Inl ValueError, s))
      else if \<not> truthy (is_local (heap s spec)) then (Inr PyFalse, s)
      else
        (case scan_local (heap s) (name (heap s spec)) (local_list s) of
           Inl e \<Rightarrow> (Inl e, s)
         | Inr deps \<Rightarrow>
             if deps \<noteq> [] \<and> \<not> force then (Inl (RuntimeError (conflict_message deps)), s)
             else
               (let s1 = (if spec \<in> set (need_update_list s)
                          then s\<lparr> need_update_list := remove1 spec (need_update_list s) \<rparr>
                          else s)
                in (Inr PyTrue,
                    s1\<lparr> heap := (heap s1)(spec := (heap s1 spec)
                                  \<lparr> need_uninstall := FBool True, need_install := FBool False,
                                    need_update := FBool False \<rparr>),
                        need_uninstall_list := need_uninstall_list s1 @ [spec] \<rparr>))))"

section \<open>Reloading the catalogs\<close>

definition alloc :: "Patcher \<Rightarrow> ModSpec \<Rightarrow> ref \<times> Patcher" where
  "alloc s spec =
     (next_ref s, s\<lparr> heap := (heap s)(next_ref s := spec), next_ref := Suc (next_ref s) \<rparr>)"

definition endswith :: "string \<Rightarrow> string \<Rightarrow> bool" where
  "endswith s suf = (length suf \<le> length s \<and> drop (length s - length suf) s = suf)"

text \<open>\<open>Patcher.getLocal\<close>: every file of the manifest cache whose name ends in
  \<open>.json\<close> is loaded; a file that does not load ends the method with the exception. The
  list is sorted by name at the end (\<open>ModSpec.__lt__\<close>; the sort is stable).\<close>

fun getLocal_loop :: "env \<Rightarrow> Patcher \<Rightarrow> (path \<times> string) list \<Rightarrow> (error + unit) \<times> Patcher" where
  "getLocal_loop e s [] = (Inr (), s)"
| "getLocal_loop e s ((p, bytes) # rest) =
     (case p of
        Meta n \<Rightarrow>
          if endswith n ''.json'' then
            (case loads e bytes of
               None \<Rightarrow> (Inl ValueError, s)
             | Some d \<Rightarrow>
                 (case fromSpecFile d of
                    Inl err \<Rightarrow> (Inl err, s)
                  | Inr spec \<Rightarrow>
                      if truthy (ignore spec) then getLocal_loop e s rest
                      else (case alloc s spec of
                              (r, s1) \<Rightarrow>
                                getLocal_loop e (s1\<lparr> local_list := local_list s1 @ [r] \<rparr>) rest)))
          else getLocal_loop e s rest
      | _ \<Rightarrow> getLocal_loop e s rest)"

definition getLocal :: "env \<Rightarrow> Patcher \<Rightarrow> (error + unit) \<times> Patcher" where
  "getLocal e s =
     (case getLocal_loop e (s\<lparr> local_list := [] \<rparr>) (listdir e (fs s)) of
        (Inl err, s1) \<Rightarrow> (Inl err, s1)
      | (Inr u, s1) \<Rightarrow>
          (Inr (), s1\<lparr> local_list := sort_key (\<lambda>r. name (heap s1 r)) (local_list s1) \<rparr>))"

text \<open>\<open>Patcher.getRemote\<close>.\<close>

fun getRemote_loop :: "Patcher \<Rightarrow> json list \<Rightarrow> (error + unit) \<times> Patcher" where
  "getRemote_loop s [] = (Inr (), s)"
| "getRemote_loop s (m # rest) =
     (case fromBeatMods m (app_type s) of
        Inl err \<Rightarrow> (Inl err, s)
      | Inr spec \<Rightarrow>
          (case alloc s spec of
             (r, s1) \<Rightarrow> getRemote_loop (s1\<lparr> remote := remote s1 @ [r] \<rparr>) rest))"

definition getRemote :: "env \<Rightarrow> Patcher \<Rightarrow> (error + unit) \<times> Patcher" where
  "getRemote e s =
     (case listing e of
        None \<Rightarrow> (Inl OSError, s\<lparr> remote := [] \<rparr>)
      | Some mods \<Rightarrow> getRemote_loop (s\<lparr> remote := [] \<rparr>) mods)"

text \<open>The update check of \<open>refreshMods\<close>: \<open>check_remote\<close> is the inner loop over the remote
  list for one local record, \<open>check_updates\<close> the outer loop over the local list.\<close>

fun check_remote :: "Patcher \<Rightarrow> ref \<Rightarrow> ref list \<Rightarrow> Patcher" where
  "check_remote s spec [] = s"
| "check_remote s spec (rspec # rest) =
     (if name (heap s spec) = name (heap s rspec) then
        (let s1 = s\<lparr> heap := (heap s)(rspec := (heap s rspec)\<lparr> is_local := FBool True \<rparr>) \<rparr>;
             s2 = (if list_lt (version (heap s1 spec)) (version (heap s1 rspec))
                   then s1\<lparr> heap := (heap s1)(spec := (heap s1 spec)\<lparr> need_update := FBool True \<rparr>),
                            need_update_list := need_update_list s1 @ [spec] \<rparr>
                   else s1)
         in check_remote s2 spec rest)
      else check_remote s spec rest)"

fun check_updates :: "Patcher \<Rightarrow> ref list \<Rightarrow> Patcher" where
  "check_updates s [] = s"
| "check_updates s (spec # rest) = check_updates (check_remote s spec (remote s)) rest"

definition refreshMods :: "env \<Rightarrow> Patcher \<Rightarrow> bool \<Rightarrow> (error + unit) \<times> Patcher" where
  "refreshMods e s doUpdate =
     (let s0 = s\<lparr> need_install_list := [], need_uninstall_list := [], need_update_list := [] \<rparr>
      in case getLocal e s0 of
           (Inl err, s1) \<Rightarrow> (Inl err, s1)
         | (Inr u, s1) \<Rightarrow>
             (case getRemote e s1 of
                (Inl err, s2) \<Rightarrow> (Inl err, s2)
              | (Inr u, s2) \<Rightarrow>
                  if \<not> doUpdate then (Inr (), s2)
                  else (Inr (), check_updates s2 (local_list s2))))"

section \<open>The patch pipeline\<close>

definition os_remove :: "Patcher \<Rightarrow> path \<Rightarrow> Patcher" where
  "os_remove s p = s\<lparr> fs := AList.delete p (fs s), trace := trace s @ [FileRemoved p] \<rparr>"

definition write_file :: "Patcher \<Rightarrow> ref \<Rightarrow> path \<Rightarrow> string \<Rightarrow> Patcher" where
  "write_file s r p bytes =
     s\<lparr> fs := AList.update p bytes (fs s), trace := trace s @ [FileWritten r p] \<rparr>"

text \<open>\<open>_getSpecFileName\<close> and \<open>_getArchiveName\<close>.\<close>

definition getSpecFileName :: "ModSpec \<Rightarrow> string" where
  "getSpecFileName spec = name spec @ ''_'' @ join ''.'' (map str_int (version spec)) @ ''.json''"

definition getArchiveName :: "ModSpec \<Rightarrow> string" where
  "getArchiveName spec = name spec @ ''_'' @ join ''.'' (map str_int (version spec)) @ ''.zip''"

text \<open>\<open>_writeSpec\<close>.\<close>

definition writeSpec :: "env \<Rightarrow> Patcher \<Rightarrow> ref \<Rightarrow> (error + unit) \<times> Patcher" where
  "writeSpec e s r =
     (let p = Meta (getSpecFileName (heap s r))
      in if writable e p
         then (Inr (), write_file s r p (dumps e (writeSpecFile (heap s r))))
         else (Inl OSError, s))"

text \<open>\<open>_uninstallMod\<close>. A file that cannot be removed is logged and skipped, and so is the
  manifest; an entry of \<open>files\<close> without a usable \<open>file\<close> key ends the method.\<close>

fun remove_files :: "Patcher \<Rightarrow> json list \<Rightarrow> (error + unit) \<times> Patcher" where
  "remove_files s [] = (Inr (), s)"
| "remove_files s (file # rest) =
     (case and_then (subscript file ''file'') as_str of
        Inl err \<Rightarrow> (Inl err, s)
      | Inr n \<Rightarrow>
          remove_files (if map_of (fs s) (Root n) = None then s else os_remove s (Root n)) rest)"

definition uninstallMod :: "Patcher \<Rightarrow> ref \<Rightarrow> (error + unit) \<times> Patcher" where
  "uninstallMod s r =
     (if \<not> truthy (is_local (heap s r))
      then (Inl (RuntimeError ''This mod is not currently installed.''), s)
      else
        (case remove_files s (files (heap s r)) of
           (Inl err, s1) \<Rightarrow> (Inl err, s1)
         | (Inr u, s1) \<Rightarrow>
             (let p = Meta (getSpecFileName (heap s1 r))
              in (Inr (), if map_of (fs s1) p = None then s1 else os_remove s1 p))))"

text \<open>\<open>_verifyArchive\<close>. The table of expected hashes is built first (the right-hand
  side \<open>i["hash"]\<close> is evaluated before the key \<open>i["file"]\<close>). An archive that does not open
  makes the method return \<open>False\<close>; a hash that does not match makes it raise.\<close>

fun build_hashes :: "json list \<Rightarrow> (json \<times> json) list \<Rightarrow> error + (json \<times> json) list" where
  "build_hashes [] acc = Inr acc"
| "build_hashes (i # rest) acc =
     and_then (subscript i ''hash'') (\<lambda>h.
     and_then (subscript i ''file'') (\<lambda>k.
       if hashable k then build_hashes rest ((k, h) # acc) else Inl TypeError))"

fun verify_members ::
  "env \<Rightarrow> (json \<times> json) list \<Rightarrow> zipmember list \<Rightarrow> zipmember list \<Rightarrow> error + bool" where
  "verify_members e hashes every [] = Inr True"
| "verify_members e hashes every (m # ms) =
     (if is_dir m then verify_members e hashes every ms
      else
        (case map_of hashes (JStr (filename m)) of
           None \<Rightarrow> verify_members e hashes every ms
         | Some h \<Rightarrow>
             and_then (read_name every (filename m)) (\<lambda>bytes.
               (case h of
                  JStr hash \<Rightarrow>
                    if validateFile e bytes hash then verify_members e hashes every ms
                    else Inl (RuntimeError (''MD5 mismatch for file '' @ [CHR 39] @ filename m @ [CHR 39] @ ''.''))
                | _ \<Rightarrow> Inl AttributeError))))"

definition verifyArchive :: "env \<Rightarrow> Patcher \<Rightarrow> ref \<Rightarrow> path \<Rightarrow> error + bool" where
  "verifyArchive e s r p =
     and_then (build_hashes (files (heap s r)) []) (\<lambda>hashes.
       (case map_of (fs s) p of
          None \<Rightarrow> Inr False
        | Some bytes \<Rightarrow>
            (case zip_open e bytes of
               None \<Rightarrow> Inr False
             | Some ms \<Rightarrow> verify_members e hashes ms ms)))"

text \<open>\<open>_downloadMod\<close>. What \<open>_verifyArchive\<close> returns is dropped: only an exception of it
  reaches the caller.\<close>

definition downloadMod :: "env \<Rightarrow> Patcher \<Rightarrow> ref \<Rightarrow> (error + bool) \<times> Patcher" where
  "downloadMod e s r =
     (case fetch e (''https://beatmods.com'' @ url (heap s r)) of
        None \<Rightarrow> (Inl OSError, s)
      | Some bytes \<Rightarrow>
          (let p = Cache (getArchiveName (heap s r))
           in if \<not> writable e p then (Inl OSError, s)
              else
                (let s1 = write_file s r p bytes;
                     s2 = s1\<lparr> heap := (heap s1)(r := (heap s1 r)\<lparr> archive := Some p \<rparr>) \<rparr>
                 in (case verifyArchive e s2 r p of
                       Inl err \<Rightarrow> (Inl err, s2)
                     | Inr ok \<Rightarrow> (Inr True, s2)))))"

text \<open>\<open>_installMod\<close>. \<open>extract_all\<close> is the loop over the entries of the archive.\<close>

fun extract_all :: "env \<Rightarrow> Patcher \<Rightarrow> ref \<Rightarrow> zipmember list \<Rightarrow> (error + unit) \<times> Patcher" where
  "extract_all e s r [] = (Inr (), s)"
| "extract_all e s r (m # ms) =
     (if is_dir m then extract_all e s r ms
      else if writable e (Root (filename m))
      then extract_all e (write_file s r (Root (filename m)) (content m)) r ms
      else (Inl OSError, s))"

definition installMod :: "env \<Rightarrow> Patcher \<Rightarrow> ref \<Rightarrow> (error + unit) \<times> Patcher" where
  "installMod e s r =
     (let p1 = (case archive (heap s r) of
                  Some p \<Rightarrow> p
                | None \<Rightarrow> Cache (getArchiveName (heap s r)))
      in case map_of (fs s) p1 of
           None \<Rightarrow> (Inl (RuntimeError ''Missing archive.''), s)
         | Some bytes \<Rightarrow>
             (case zip_open e bytes of
                None \<Rightarrow> (Inl (RuntimeError ''Unable to open file, probably bad download.''), s)
              | Some ms \<Rightarrow>
                  (case extract_all e s r ms of
                     (Inl err, s1) \<Rightarrow> (Inl err, s1)
                   | (Inr u, s1) \<Rightarrow>
                       writeSpec e
                         (s1\<lparr> heap := (heap s1)(r := (heap s1 r)
                                 \<lparr> is_remote := FBool False, is_local := FBool True,
                                   need_install := FBool False \<rparr>) \<rparr>) r)))"

text \<open>The phases of \<open>Patcher.patch\<close>, each loop as a function of its own.\<close>

fun uninstall_all :: "Patcher \<Rightarrow> ref list \<Rightarrow> Patcher" where
  "uninstall_all s [] = s"
| "uninstall_all s (m # ms) =
     (case uninstallMod s m of
        (Inl err, s1) \<Rightarrow> uninstall_all (s1\<lparr> trace := trace s1 @ [UninstallFailed m] \<rparr>) ms
      | (Inr u, s1) \<Rightarrow> uninstall_all s1 ms)"

fun substitute :: "Patcher \<Rightarrow> ref list \<Rightarrow> ref list" where
  "substitute s [] = []"
| "substitute s (m # ms) =
     (case find_name (heap s) (name (heap s m)) (remote s) of
        Some r \<Rightarrow> r # substitute s ms
      | None \<Rightarrow> substitute s ms)"

definition install_set :: "Patcher \<Rightarrow> ref list" where
  "install_set s = substitute s (need_update_list s) @ need_install_list s"

text \<open>Phase three runs over a copy of the install list (\<open>install[:]\<close>) and removes from
  the list itself; the third argument is the list, the fourth what is left of the copy.\<close>

fun download_all :: "env \<Rightarrow> Patcher \<Rightarrow> ref list \<Rightarrow> ref list \<Rightarrow> Patcher \<times> ref list" where
  "download_all e s install [] = (s, install)"
| "download_all e s install (m # ms) =
     (if archive (heap s m) \<noteq> None then download_all e s install ms
      else
        (case downloadMod e s m of
           (Inl err, s1) \<Rightarrow>
             download_all e (s1\<lparr> trace := trace s1 @ [DownloadFailed m] \<rparr>) (remove1 m install) ms
         | (Inr ok, s1) \<Rightarrow> download_all e s1 install ms))"

fun install_all :: "env \<Rightarrow> Patcher \<Rightarrow> ref list \<Rightarrow> Patcher" where
  "install_all e s [] = s"
| "install_all e s (m # ms) =
     (case installMod e s m of
        (Inl err, s1) \<Rightarrow> install_all e (s1\<lparr> trace := trace s1 @ [InstallFailed m] \<rparr>) ms
      | (Inr u, s1) \<Rightarrow> install_all e s1 ms)"

fun is_cache :: "path \<Rightarrow> bool" where
  "is_cache (Cache n) = True"
| "is_cache _ = False"

text \<open>Phase five: every file that the listing of the download cache yields is removed;
  a removal that fails is passed over.\<close>

definition cleanup :: "env \<Rightarrow> Patcher \<Rightarrow> Patcher" where
  "cleanup e s =
     foldl (\<lambda>t p. if map_of (fs t) p = None then t else os_remove t p) s
       (filter is_cache (map fst (listdir e (fs s))))"

definition is_core :: "Patcher \<Rightarrow> ref \<Rightarrow> bool" where
  "is_core s m = (category (heap s m) = CORE)"

definition patch :: "env \<Rightarrow> Patcher \<Rightarrow> Patcher" where
  "patch e s =
     (let s1 = uninstall_all s (need_uninstall_list s @ need_update_list s);
          (s2, install) = download_all e s1 (install_set s1) (install_set s1);
          core_install = filter (is_core s2) install;
          generic_install = filter (\<lambda>m. \<not> is_core s2 m) install;
          s3 = install_all e s2 core_install;
          s4 = install_all e s3 generic_install
      in cleanup e s4)"

section \<open>Notions used in the statements about the queues\<close>

text \<open>How many records of a list carry a name, the names in the local and in the remote
  catalog, and the number of remote names that the local catalog lacks.\<close>

definition count_name :: "(ref \<Rightarrow> ModSpec) \<Rightarrow> string \<Rightarrow> ref list \<Rightarrow> nat" where
  "count_name h n xs = length (filter (\<lambda>m. name (h m) = n) xs)"

definition lnames :: "Patcher \<Rightarrow> string set" where
  "lnames s = (\<lambda>m. name (heap s m)) ` set (local_list s)"

definition rnames :: "Patcher \<Rightarrow> string set" where
  "rnames s = (\<lambda>m. name (heap s m)) ` set (remote s)"

definition todo :: "Patcher \<Rightarrow> nat" where
  "todo s = card (rnames s - lnames s)"

text \<open>What a call of \<open>addMod\<close> keeps: the remote list, the update queue, the disk, every
  name, and, for a name the local catalog already has, the number of records of that name
  in the local catalog and in the install queue.\<close>

definition pres :: "Patcher \<Rightarrow> Patcher \<Rightarrow> bool" where
  "pres s s' \<longleftrightarrow>
     remote s' = remote s \<and> need_update_list s' = need_update_list s \<and>
     fs s' = fs s \<and> trace s' = trace s \<and>
     (\<forall>r. name (heap s' r) = name (heap s r)) \<and>
     (\<forall>n \<in> lnames s.
        count_name (heap s') n (local_list s') = count_name (heap s) n (local_list s) \<and>
        count_name (heap s') n (need_install_list s') = count_name (heap s) n (need_install_list s))"

text \<open>Steps two and three of \<open>addMod\<close>: the record that is queued, and the state after
  it has been appended to the local catalog and the install queue.\<close>

definition chosen :: "Patcher \<Rightarrow> ref \<Rightarrow> ref" where
  "chosen s spec =
     (case find_name (heap s) (name (heap s spec)) (remote s) of Some m \<Rightarrow> m | None \<Rightarrow> spec)"

definition staged :: "Patcher \<Rightarrow> ref \<Rightarrow> ref option \<Rightarrow> Patcher" where
  "staged s spec fromSpec =
     (let spec' = chosen s spec;
          h1 = (case fromSpec of
                  None \<Rightarrow> heap s
                | Some f \<Rightarrow> (heap s)(spec' := (heap s spec')\<lparr> source := Some f \<rparr>));
          h2 = h1(spec' := (h1 spec')\<lparr> need_install := FBool True \<rparr>)
      in s\<lparr> heap := h2,
             local_list := local_list s @ [spec'],
             need_install_list := need_install_list s @ [spec'] \<rparr>)"

text \<open>Two remote packages that depend on each other, and nothing installed: record 0 is
  \<open>A\<close> and lists \<open>B\<close> as its dependency, record 1 is \<open>B\<close> and lists \<open>A\<close>.\<close>

definition cycle_A :: ModSpec where
  "cycle_A = (ModSpec_init ''a1'' ''A'' [1, 0, 0] ''/a.zip'' []
                [JObj [(''name'', JStr ''B'')]] OTHER [1, 0, 0])\<lparr> is_remote := FBool True \<rparr>"

definition cycle_B :: ModSpec where
  "cycle_B = (ModSpec_init ''b1'' ''B'' [1, 0, 0] ''/b.zip'' []
                [JObj [(''name'', JStr ''A'')]] OTHER [1, 0, 0])\<lparr> is_remote := FBool True \<rparr>"

definition cycle_state :: Patcher where
  "cycle_state =
     \<lparr> heap = (\<lambda>r. if r = 0 then cycle_A else cycle_B), remote = [0, 1], local_list = [],
       need_install_list = [], need_uninstall_list = [], need_update_list = [],
       app_type = ''steam'', fs = [], trace = [], next_ref = 2 \<rparr>"

section \<open>Notions used in the statements about removal\<close>

text \<open>A record depends on a name when an entry of its dependency list carries that name
  under the key \<open>name\<close>. The dependents of a name are the names of the local records that
  depend on it, in the order of the local catalog (a record is listed once for every
  entry that names the target). The dependency lists of the local catalog are well formed
  when every entry is a dictionary with the key \<open>name\<close>, as the remote listing supplies
  them.\<close>

definition depends_on :: "ModSpec \<Rightarrow> string \<Rightarrow> bool" where
  "depends_on m n = list_ex (\<lambda>d. subscript d ''name'' = Inr (JStr n)) (dependencies m)"

definition dependents :: "Patcher \<Rightarrow> string \<Rightarrow> string list" where
  "dependents s n =
     concat (map (\<lambda>m. map (\<lambda>d. name (heap s m))
                         (filter (\<lambda>d. subscript d ''name'' = Inr (JStr n)) (dependencies (heap s m))))
                 (local_list s))"

definition has_name :: "json \<Rightarrow> bool" where
  "has_name d = (case subscript d ''name'' of Inl e \<Rightarrow> False | Inr v \<Rightarrow> True)"

definition wf_dependencies :: "Patcher \<Rightarrow> bool" where
  "wf_dependencies s = list_all (\<lambda>m. list_all has_name (dependencies (heap s m))) (local_list s)"

text \<open>The state \<open>removeMod\<close> leaves when it queues a record for uninstallation.\<close>

definition unstaged :: "Patcher \<Rightarrow> ref \<Rightarrow> Patcher" where
  "unstaged s spec =
     s\<lparr> need_update_list := remove1 spec (need_update_list s),
        heap := (heap s)(spec := (heap s spec)
                  \<lparr> need_uninstall := FBool True, need_install := FBool False,
                    need_update := FBool False \<rparr>),
        need_uninstall_list := need_uninstall_list s @ [spec] \<rparr>"

text \<open>The installed package \<open>C\<close> (record 0), queued for an update, and a library
  \<open>L\<close> (record 1) that depends on it.\<close>

definition lib_L :: ModSpec where
  "lib_L = (ModSpec_init ''l1'' ''L'' [1, 0, 0] ''/l.zip'' []
              [JObj [(''name'', JStr ''C'')]] LIBRARY [1, 0, 0])\<lparr> is_local := FBool True \<rparr>"

definition core_C :: ModSpec where
  "core_C = (ModSpec_init ''c1'' ''C'' [1, 0, 0] ''/c.zip'' [] [] CORE [1, 0, 0])
              \<lparr> is_local := FBool True, need_update := FBool True \<rparr>"

definition dep_state :: Patcher where
  "dep_state =
     \<lparr> heap = (\<lambda>r. if r = 0 then core_C else lib_L), remote = [], local_list = [0, 1],
       need_install_list = [], need_uninstall_list = [], need_update_list = [0],
       app_type = ''steam'', fs = [], trace = [], next_ref = 2 \<rparr>"


text \<open>
  A manifest in the layout that the documentation of \<open>ModSpec\<close> gives, with the
  dependencies as a list of names, and the record that \<open>fromSpecFile\<close> makes of it. In the
  state \<open>names_state\<close> the local catalog holds the installed package \<open>C\<close> (record 0) and this
  record (record 1).
\<close>

definition names_manifest :: json where
  "names_manifest =
     JObj [(''id'', JStr ''l1''), (''name'', JStr ''L''),
           (''version'', JList [JInt 1, JInt 0, JInt 0]), (''url'', JStr ''/l.zip''),
           (''config'', JObj [(''ignore'', JInt 0), (''is_local'', JInt 1),
                              (''is_remote'', JInt 0), (''need_update'', JInt 0),
                              (''need_install'', JInt 0), (''need_uninstall'', JInt 0)]),
           (''dependencies'', JList [JStr ''C'']),
           (''files'', JList [])]"

definition names_L :: ModSpec where
  "names_L =
     (ModSpec_init ''l1'' ''L'' [1, 0, 0] ''/l.zip'' [] [JStr ''C''] OTHER [1, 0, 0])
       \<lparr> ignore := FInt 0, is_local := FInt 1, is_remote := FInt 0,
         need_update := FInt 0, need_install := FInt 0, need_uninstall := FInt 0 \<rparr>"

definition names_state :: Patcher where
  "names_state =
     \<lparr> heap = (\<lambda>r. if r = 0 then core_C else names_L), remote = [], local_list = [0, 1],
       need_install_list = [], need_uninstall_list = [], need_update_list = [0],
       app_type = ''steam'', fs = [], trace = [], next_ref = 2 \<rparr>"

text \<open>
  The installed package \<open>X\<close> of version 1.0.0 (record 0) and a remote catalog with two
  newer entries of the same name, versions 1.1.0 (record 1) and 1.2.0 (record 2); no
  queue holds anything. \<open>twice_queued\<close> is the state after the update check of
  \<open>refreshMods\<close>.
\<close>

definition pkg_X :: "int list \<Rightarrow> ModSpec" where
  "pkg_X v = ModSpec_init ''x1'' ''X'' v ''/x.zip'' [] [] OTHER [1, 0, 0]"

definition two_newer :: Patcher where
  "two_newer =
     \<lparr> heap = (\<lambda>r. if r = 0 then (pkg_X [1, 0, 0])\<lparr> is_local := FBool True \<rparr>
                    else if r = 1 then (pkg_X [1, 1, 0])\<lparr> is_remote := FBool True \<rparr>
                    else (pkg_X [1, 2, 0])\<lparr> is_remote := FBool True \<rparr>),
       remote = [1, 2], local_list = [0],
       need_install_list = [], need_uninstall_list = [], need_update_list = [],
       app_type = ''steam'', fs = [], trace = [], next_ref = 3 \<rparr>"

definition twice_queued :: Patcher where
  "twice_queued = check_updates two_newer (local_list two_newer)"
section \<open>Notions used in the statements about versions\<close>

text \<open>The comparison the specification describes: both sequences are padded with zeros
  to the length of the longer one and then compared component by component, from the
  left.\<close>

definition spec_pad :: "nat \<Rightarrow> int list \<Rightarrow> int list" where
  "spec_pad n xs = xs @ replicate (n - length xs) 0"

fun lex_lt :: "int list \<Rightarrow> int list \<Rightarrow> bool" where
  "lex_lt (x # xs) (y # ys) = (x < y \<or> (x = y \<and> lex_lt xs ys))"
| "lex_lt _ _ = False"

definition spec_version_lt :: "int list \<Rightarrow> int list \<Rightarrow> bool" where
  "spec_version_lt a b =
     lex_lt (spec_pad (max (length a) (length b)) a) (spec_pad (max (length a) (length b)) b)"

definition spec_version_eq :: "int list \<Rightarrow> int list \<Rightarrow> bool" where
  "spec_version_eq a b =
     (spec_pad (max (length a) (length b)) a = spec_pad (max (length a) (length b)) b)"

definition nonneg :: "int list \<Rightarrow> bool" where
  "nonneg xs = list_all (\<lambda>x. 0 \<le> x) xs"

text \<open>A local package \<open>X\<close> of version 1.2 (record 0) and the remote \<open>X\<close> of version
  1.2.0 (record 1).\<close>

definition ver_state :: Patcher where
  "ver_state =
     \<lparr> heap = (\<lambda>r. if r = 0
                   then (ModSpec_init ''x1'' ''X'' [1, 2] ''/x.zip'' [] [] OTHER [1, 0, 0])
                          \<lparr> is_local := FInt 1 \<rparr>
                   else (ModSpec_init ''x2'' ''X'' [1, 2, 0] ''/x.zip'' [] [] OTHER [1, 0, 0])
                          \<lparr> is_remote := FBool True \<rparr>),
       remote = [1], local_list = [0],
       need_install_list = [], need_uninstall_list = [], need_update_list = [],
       app_type = ''steam'', fs = [], trace = [], next_ref = 2 \<rparr>"

section \<open>Notions used in the statements about manifests\<close>

text \<open>The record that comes back when a manifest written from \<open>r\<close> is parsed: the
  persisted fields of \<open>r\<close>, every flag as the integer it was stored as, and the
  constructor's defaults for what a manifest does not hold.\<close>

definition reloaded :: "ModSpec \<Rightarrow> ModSpec" where
  "reloaded r =
     (ModSpec_init (mod_id r) (name r) (version r) (url r) (files r) (dependencies r)
        OTHER [1, 0, 0])
       \<lparr> ignore := FInt (int_of_flag (ignore r)),
         is_local := FInt (int_of_flag (is_local r)),
         is_remote := FInt (int_of_flag (is_remote r)),
         need_update := FInt (int_of_flag (need_update r)),
         need_install := FInt (int_of_flag (need_install r)),
         need_uninstall := FInt (int_of_flag (need_uninstall r)) \<rparr>"

text \<open>An installed package as \<open>_installMod\<close> leaves it before it writes the manifest.\<close>

definition sample_spec :: ModSpec where
  "sample_spec =
     (ModSpec_init ''5c9e'' ''SongCore'' [2, 7, 1] ''/uploads/songcore.zip''
        [JObj [(''hash'', JStr ''00ff''), (''file'', JStr ''Plugins/SongCore.dll'')]]
        [JObj [(''name'', JStr ''BSIPA'')]] LIBRARY [1, 8, 0])
       \<lparr> is_local := FBool True, archive := Some (Cache ''SongCore_2.7.1.zip'') \<rparr>"

section \<open>A remote listing entry\<close>

text \<open>An entry of the remote listing with the given version and game version strings:
  a core package with one universal download.\<close>

definition listing_entry :: "string \<Rightarrow> string \<Rightarrow> json" where
  "listing_entry v gv =
     JObj [(''_id'', JStr ''5d1a''), (''name'', JStr ''BSIPA''),
           (''version'', JStr v), (''gameVersion'', JStr gv),
           (''category'', JStr ''Core''),
           (''downloads'',
              JList [JObj [(''type'', JStr ''universal''), (''url'', JStr ''/uploads/bsipa.zip''),
                           (''hashMd5'', JList [])]]),
           (''dependencies'', JList [])]"

section \<open>Notions used in the statements about \<open>patch\<close>\<close>

text \<open>The record an event installs for: a file written into the game directory or into
  the manifest cache, or a failed installation. A file written into the download cache, a
  removal and the other failures belong to no installation.\<close>

fun install_ref :: "event \<Rightarrow> ref option" where
  "install_ref (FileWritten r (Root p)) = Some r"
| "install_ref (FileWritten r (Meta p)) = Some r"
| "install_ref (InstallFailed r) = Some r"
| "install_ref _ = None"

definition no_install :: "event \<Rightarrow> bool" where
  "no_install ev = (install_ref ev = None)"

definition installs_of :: "(ref \<Rightarrow> bool) \<Rightarrow> event \<Rightarrow> bool" where
  "installs_of P ev = (case install_ref ev of None \<Rightarrow> False | Some m \<Rightarrow> P m)"

text \<open>The events that happened between two states.\<close>

definition new_events :: "Patcher \<Rightarrow> Patcher \<Rightarrow> event list" where
  "new_events s s' = drop (length (trace s)) (trace s')"

text \<open>One stretch of \<open>patch\<close>: the trace grows by events that satisfy \<open>P\<close>, the category of
  every record stays, and so do the catalogs and the three queues.\<close>

definition stretch :: "(event \<Rightarrow> bool) \<Rightarrow> Patcher \<Rightarrow> Patcher \<Rightarrow> bool" where
  "stretch P s s' \<longleftrightarrow>
     trace s' = trace s @ new_events s s' \<and> list_all P (new_events s s') \<and>
     (\<forall>m. category (heap s' m) = category (heap s m)) \<and>
     remote s' = remote s \<and> local_list s' = local_list s \<and>
     need_install_list s' = need_install_list s \<and>
     need_uninstall_list s' = need_uninstall_list s \<and>
     need_update_list s' = need_update_list s"

text \<open>The states between the phases of \<open>patch\<close>, and the install set that phase three
  leaves.\<close>

definition after_uninstall :: "Patcher \<Rightarrow> Patcher" where
  "after_uninstall s = uninstall_all s (need_uninstall_list s @ need_update_list s)"

definition after_download :: "env \<Rightarrow> Patcher \<Rightarrow> Patcher" where
  "after_download e s =
     fst (download_all e (after_uninstall s) (install_set (after_uninstall s))
            (install_set (after_uninstall s)))"

definition reduced_install_set :: "env \<Rightarrow> Patcher \<Rightarrow> ref list" where
  "reduced_install_set e s =
     snd (download_all e (after_uninstall s) (install_set (after_uninstall s))
            (install_set (after_uninstall s)))"

definition after_core :: "env \<Rightarrow> Patcher \<Rightarrow> Patcher" where
  "after_core e s =
     install_all e (after_download e s)
       (filter (is_core (after_download e s)) (reduced_install_set e s))"

definition after_generic :: "env \<Rightarrow> Patcher \<Rightarrow> Patcher" where
  "after_generic e s =
     install_all e (after_core e s)
       (filter (\<lambda>m. \<not> is_core (after_download e s) m) (reduced_install_set e s))"

text \<open>
  A small world for examples. The server has a valid archive for the core package \<open>C\<close>
  (a directory entry and one file) and for the library \<open>L\<close> (one file), and answers the
  address of the package \<open>B\<close> with a page that is no archive. Every hash is \<open>d41d\<close>,
  every path is writable, and a directory lists its files in the order they were
  created.
  Record 0 is \<open>L\<close>, record 1 is \<open>C\<close>, record 2 is \<open>B\<close>; all three are remote records
  queued for installation, \<open>L\<close> first.
\<close>

definition demo_env :: env where
  "demo_env =
     \<lparr> md5hex = (\<lambda>b. ''d41d''),
       zip_open = (\<lambda>b. if b = ''zipC''
                        then Some [\<lparr> filename = ''IPA/'', content = [] \<rparr>,
                                   \<lparr> filename = ''IPA/core.dll'', content = ''cc'' \<rparr>]
                        else if b = ''zipL''
                        then Some [\<lparr> filename = ''Plugins/lib.dll'', content = ''ll'' \<rparr>]
                        else None),
       loads = (\<lambda>t. None),
       dumps = (\<lambda>j. ''{}''),
       fetch = (\<lambda>u. if u = ''https://beatmods.com/c.zip'' then Some ''zipC''
                     else if u = ''https://beatmods.com/l.zip'' then Some ''zipL''
                     else if u = ''https://beatmods.com/b.zip'' then Some ''<html>''
                     else None),
       listing = None,
       writable = (\<lambda>p. True),
       listdir = (\<lambda>files. files) \<rparr>"

definition demo_L :: ModSpec where
  "demo_L = (ModSpec_init ''l1'' ''L'' [1, 0, 0] ''/l.zip''
               [JObj [(''hash'', JStr ''D41D''), (''file'', JStr ''Plugins/lib.dll'')]]
               [JObj [(''name'', JStr ''C'')]] LIBRARY [1, 0, 0])
              \<lparr> is_remote := FBool True, need_install := FBool True \<rparr>"

definition demo_C :: ModSpec where
  "demo_C = (ModSpec_init ''c1'' ''C'' [2, 1] ''/c.zip''
               [JObj [(''hash'', JStr ''d41d''), (''file'', JStr ''IPA/core.dll'')]]
               [] CORE [1, 0, 0])
              \<lparr> is_remote := FBool True, need_install := FBool True \<rparr>"

definition demo_B :: ModSpec where
  "demo_B = (ModSpec_init ''b1'' ''B'' [3] ''/b.zip''
               [JObj [(''hash'', JStr ''d41d''), (''file'', JStr ''Plugins/b.dll'')]]
               [] CORE [1, 0, 0])
              \<lparr> is_remote := FBool True, need_install := FBool True \<rparr>"

text \<open>Two more records: \<open>N\<close> (record 3), whose address the server does not answer, and
  \<open>H\<close> (record 4), whose archive is the one of \<open>L\<close> while its listing promises another
  hash for the file in it.\<close>

definition demo_N :: ModSpec where
  "demo_N = (ModSpec_init ''n1'' ''N'' [1] ''/n.zip'' [] [] OTHER [1, 0, 0])
              \<lparr> is_remote := FBool True, need_install := FBool True \<rparr>"

definition demo_H :: ModSpec where
  "demo_H = (ModSpec_init ''h1'' ''H'' [1] ''/l.zip''
               [JObj [(''hash'', JStr ''ffff''), (''file'', JStr ''Plugins/lib.dll'')]]
               [] OTHER [1, 0, 0])
              \<lparr> is_remote := FBool True, need_install := FBool True \<rparr>"

definition demo_heap :: "ref \<Rightarrow> ModSpec" where
  "demo_heap r =
     (if r = 0 then demo_L else if r = 1 then demo_C else if r = 2 then demo_B
      else if r = 3 then demo_N else demo_H)"

definition demo_state :: Patcher where
  "demo_state =
     \<lparr> heap = demo_heap, remote = [2, 1, 0], local_list = [0, 1],
       need_install_list = [0, 1], need_uninstall_list = [], need_update_list = [],
       app_type = ''steam'', fs = [], trace = [], next_ref = 5 \<rparr>"

text \<open>The state in which \<open>N\<close>, \<open>H\<close>, \<open>B\<close> and \<open>C\<close> are queued for installation, in
  this order.\<close>

definition faulty_state :: Patcher where
  "faulty_state =
     \<lparr> heap = demo_heap, remote = [4, 3, 2, 1, 0], local_list = [3, 4, 2, 1],
       need_install_list = [3, 4, 2, 1], need_uninstall_list = [], need_update_list = [],
       app_type = ''steam'', fs = [], trace = [], next_ref = 5 \<rparr>"

text \<open>Two states with the same three queues.\<close>

definition same_queues :: "Patcher \<Rightarrow> Patcher \<Rightarrow> bool" where
  "same_queues s s' \<longleftrightarrow>
     need_install_list s' = need_install_list s \<and>
     need_uninstall_list s' = need_uninstall_list s \<and>
     need_update_list s' = need_update_list s"

text \<open>A file exists; the disk after the entries of an archive that are no directories
  have been written to the game directory, in archive order; the fields of a record after
  a successful installation; the entries of the archive that \<open>_installMod\<close> opens for a
  record (the bound archive, or the file of the download cache named after the
  record).\<close>

definition present :: "Patcher \<Rightarrow> path \<Rightarrow> bool" where
  "present s p = (map_of (fs s) p \<noteq> None)"







section \<open>MD5\<close>

text \<open>
  \<open>hashlib.md5\<close> belongs to Python's library, not to the program; the model takes it as
  the parameter \<open>md5hex\<close>. To run examples on the hash the program really uses, this
  section defines MD5 as RFC 1321 does, on 32-bit words: the message is padded to a
  multiple of 64 bytes (a byte 128, zeros, the length in bits as 8 bytes), every block of
  16 little-endian words goes through 64 steps, and the four state words are printed as
  lower-case hexadecimal digits, low byte first.
\<close>

unbundle bit_operations_syntax

definition md5_K :: "32 word list" where
  "md5_K = [0xd76aa478, 0xe8c7b756, 0x242070db, 0xc1bdceee, 0xf57c0faf, 0x4787c62a, 0xa8304613, 0xfd469501, 0x698098d8, 0x8b44f7af, 0xffff5bb1, 0x895cd7be, 0x6b901122, 0xfd987193, 0xa679438e, 0x49b40821, 0xf61e2562, 0xc040b340, 0x265e5a51, 0xe9b6c7aa, 0xd62f105d, 0x02441453, 0xd8a1e681, 0xe7d3fbc8, 0x21e1cde6, 0xc33707d6, 0xf4d50d87, 0x455a14ed, 0xa9e3e905, 0xfcefa3f8, 0x676f02d9, 0x8d2a4c8a, 0xfffa3942, 0x8771f681, 0x6d9d6122, 0xfde5380c, 0xa4beea44, 0x4bdecfa9, 0xf6bb4b60, 0xbebfbc70, 0x289b7ec6, 0xeaa127fa, 0xd4ef3085, 0x04881d05, 0xd9d4d039, 0xe6db99e5, 0x1fa27cf8, 0xc4ac5665, 0xf4292244, 0x432aff97, 0xab9423a7, 0xfc93a039, 0x655b59c3, 0x8f0ccc92, 0xffeff47d, 0x85845dd1, 0x6fa87e4f, 0xfe2ce6e0, 0xa3014314, 0x4e0811a1, 0xf7537e82, 0xbd3af235, 0x2ad7d2bb, 0xeb86d391]"

definition md5_S :: "nat list" where
  "md5_S = [7, 12, 17, 22, 7, 12, 17, 22, 7, 12, 17, 22, 7, 12, 17, 22,
            5, 9, 14, 20, 5, 9, 14, 20, 5, 9, 14, 20, 5, 9, 14, 20,
            4, 11, 16, 23, 4, 11, 16, 23, 4, 11, 16, 23, 4, 11, 16, 23,
            6, 10, 15, 21, 6, 10, 15, 21, 6, 10, 15, 21, 6, 10, 15, 21]"

definition rotl :: "nat \<Rightarrow> 32 word \<Rightarrow> 32 word" where
  "rotl n w = (push_bit n w) OR (drop_bit (32 - n) w)"

fun le_word :: "32 word list \<Rightarrow> 32 word" where
  "le_word [] = 0"
| "le_word (b # bs) = b + push_bit 8 (le_word bs)"

fun chunks :: "nat \<Rightarrow> nat \<Rightarrow> 'a list \<Rightarrow> 'a list list" where
  "chunks 0 n xs = []"
| "chunks (Suc k) n xs = take n xs # chunks k n (drop n xs)"

definition le_bytes :: "nat \<Rightarrow> 64 word \<Rightarrow> 32 word list" where
  "le_bytes k v = map (\<lambda>i. ucast (drop_bit (8 * i) v AND 255)) [0..<k]"

definition md5_pad :: "32 word list \<Rightarrow> 32 word list" where
  "md5_pad m =
     m @ [128] @ replicate ((119 - length m mod 64) mod 64) 0 @ le_bytes 8 (8 * of_nat (length m))"

definition md5_step :: "32 word list \<Rightarrow> 32 word \<times> 32 word \<times> 32 word \<times> 32 word \<Rightarrow> nat \<Rightarrow> 32 word \<times> 32 word \<times> 32 word \<times> 32 word" where
  "md5_step M st i =
     (case st of (A, B, C, D) \<Rightarrow>
        let F = (if i < 16 then (B AND C) OR (NOT B AND D)
                 else if i < 32 then (D AND B) OR (NOT D AND C)
                 else if i < 48 then B XOR C XOR D
                 else C XOR (B OR NOT D));
            g = (if i < 16 then i
                 else if i < 32 then (5 * i + 1) mod 16
                 else if i < 48 then (3 * i + 5) mod 16
                 else (7 * i) mod 16);
            F' = F + A + md5_K ! i + M ! g
        in (D, B + rotl (md5_S ! i) F', B, C))"

definition md5_block :: "32 word \<times> 32 word \<times> 32 word \<times> 32 word \<Rightarrow> 32 word list \<Rightarrow> 32 word \<times> 32 word \<times> 32 word \<times> 32 word" where
  "md5_block h blk =
     (case h of (a0, b0, c0, d0) \<Rightarrow>
        case foldl (md5_step (map le_word (chunks 16 4 blk))) h [0..<64] of
          (A, B, C, D) \<Rightarrow> (a0 + A, b0 + B, c0 + C, d0 + D))"

definition hex_digit :: "nat \<Rightarrow> char" where
  "hex_digit n = (if n < 10 then char_of (48 + n) else char_of (87 + n))"

definition hex_byte :: "nat \<Rightarrow> string" where
  "hex_byte b = [hex_digit (b div 16), hex_digit (b mod 16)]"

definition md5_hexdigest :: "string \<Rightarrow> string" where
  "md5_hexdigest s =
     (let p = md5_pad (map of_char s);
          h = foldl md5_block (0x67452301, 0xefcdab89, 0x98badcfe, 0x10325476)
                (chunks (length p div 64) 64 p)
      in case h of (a, b, c, d) \<Rightarrow>
           concat (map (\<lambda>w. concat (map (\<lambda>b. hex_byte (unat b)) (le_bytes 4 (ucast w)))) [a, b, c, d]))"



text \<open>The small world of the examples with the real hash in place of the constant one,
  and two archives that hold the same two entries, \<open>a\<close> and \<open>b\<close>, in opposite order.\<close>

definition md5_env :: env where
  "md5_env = demo_env\<lparr> md5hex := md5_hexdigest \<rparr>"

definition zip_ab :: zipfile where
  "zip_ab = \<lparr> zfilename = ''/tmp/ab.zip'',
               members = [\<lparr> filename = ''a'', content = [] \<rparr>, \<lparr> filename = ''b'', content = [] \<rparr>] \<rparr>"

definition zip_ba :: zipfile where
  "zip_ba = \<lparr> zfilename = ''/tmp/ba.zip'',
               members = [\<lparr> filename = ''b'', content = [] \<rparr>, \<lparr> filename = ''a'', content = [] \<rparr>] \<rparr>"

section \<open>Queueing an installation\<close>

lemma count_name_cong:
  "(\<forall>r. name (h' r) = name (h r)) \<Longrightarrow> count_name h' n xs = count_name h n xs"
  by (simp add: count_name_def)

lemma lnames_count: "n \<in> lnames s \<longleftrightarrow> 0 < count_name (heap s) n (local_list s)"
  by (auto simp: lnames_def count_name_def filter_empty_conv)

lemma pres_refl: "pres s s"
  by (simp add: pres_def)

lemma pres_lnames: "pres s s' \<Longrightarrow> lnames s \<subseteq> lnames s'"
  unfolding pres_def by (auto simp: lnames_count)

lemma pres_trans: "pres s s' \<Longrightarrow> pres s' s'' \<Longrightarrow> pres s s''"
proof -
  assume a: "pres s s'" and b: "pres s' s''"
  have sub: "lnames s \<subseteq> lnames s'" using a by (rule pres_lnames)
  show ?thesis
    using a b sub unfolding pres_def by (auto simp: subset_iff)
qed

lemma find_name_Some: "find_name h n xs = Some m \<Longrightarrow> m \<in> set xs \<and> name (h m) = n"
  by (auto simp: find_name_def find_Some_iff)

lemma find_name_None: "find_name h n xs = None \<longleftrightarrow> n \<notin> (\<lambda>m. name (h m)) ` set xs"
  by (auto simp: find_name_def find_None_iff)

lemma chosen_name: "name (heap s (chosen s spec)) = name (heap s spec)"
  by (auto simp: chosen_def dest: find_name_Some split: option.splits)

lemma staged_names: "name (heap (staged s spec f) r) = name (heap s r)"
  by (simp add: staged_def Let_def split: option.splits)

lemma staged_lists:
  "local_list (staged s spec f) = local_list s @ [chosen s spec]"
  "need_install_list (staged s spec f) = need_install_list s @ [chosen s spec]"
  "remote (staged s spec f) = remote s"
  "need_update_list (staged s spec f) = need_update_list s"
  "need_uninstall_list (staged s spec f) = need_uninstall_list s"
  "fs (staged s spec f) = fs s"
  "trace (staged s spec f) = trace s"
  by (simp_all add: staged_def Let_def)

lemma addMod_Suc_found:
  "find_name (heap s) (name (heap s spec)) (local_list s) = Some m \<Longrightarrow>
   addMod (Suc k) s spec f =
     (if truthy (need_uninstall (heap s m))
      then Some (Inr PyNone,
             s\<lparr> need_uninstall_list := remove1 m (need_uninstall_list s),
                heap := (heap s)(m := (heap s m)\<lparr> need_uninstall := FBool False \<rparr>) \<rparr>)
      else Some (Inr PyNone, s))"
  by simp

lemma addMod_Suc_fresh:
  "find_name (heap s) (name (heap s spec)) (local_list s) = None \<Longrightarrow>
   addMod (Suc k) s spec f =
     addMod_deps (addMod k) (staged s spec f) (chosen s spec)
       (dependencies (heap s (chosen s spec)))"
  by (simp add: staged_def chosen_def Let_def split: option.splits)

lemma staged_lnames: "lnames (staged s spec f) = insert (name (heap s spec)) (lnames s)"
  unfolding lnames_def by (simp add: staged_names staged_lists chosen_name)

lemma staged_rnames: "rnames (staged s spec f) = rnames s"
  unfolding rnames_def by (simp add: staged_names staged_lists)

lemma staged_count_local:
  "count_name (heap (staged s spec f)) n (local_list (staged s spec f)) =
   count_name (heap s) n (local_list s) + (if name (heap s spec) = n then 1 else 0)"
  by (simp add: count_name_def staged_names staged_lists chosen_name)

lemma staged_count_install:
  "count_name (heap (staged s spec f)) n (need_install_list (staged s spec f)) =
   count_name (heap s) n (need_install_list s) + (if name (heap s spec) = n then 1 else 0)"
  by (simp add: count_name_def staged_names staged_lists chosen_name)

lemma staged_pres:
  assumes nf: "find_name (heap s) (name (heap s spec)) (local_list s) = None"
  shows "pres s (staged s spec f)"
proof -
  have notin: "name (heap s spec) \<notin> lnames s"
    using nf by (simp add: find_name_None lnames_def)
  have "n \<in> lnames s \<Longrightarrow> name (heap s spec) \<noteq> n" for n
    using notin by auto
  then show ?thesis
    unfolding pres_def
    by (simp add: staged_names staged_lists(3-7) staged_count_local staged_count_install)
qed

lemma unqueue_pres:
  "pres s (s\<lparr> need_uninstall_list := xs,
             heap := (heap s)(m := (heap s m)\<lparr> need_uninstall := v \<rparr>) \<rparr>)"
proof -
  let ?h = "(heap s)(m := (heap s m)\<lparr> need_uninstall := v \<rparr>)"
  have n: "\<forall>r. name (?h r) = name (heap s r)" by simp
  show ?thesis
    unfolding pres_def using n by (simp add: count_name_cong [OF n])
qed

text \<open>The loop over the dependencies keeps what every recursive call keeps.\<close>

lemma addMod_deps_pres:
  assumes rec: "\<And>s m f r s'. rec s m f = Some (r, s') \<Longrightarrow> pres s s'"
  shows "addMod_deps rec s spec ds = Some (r, s') \<Longrightarrow> pres s s'"
proof (induction ds arbitrary: s)
  case Nil
  then show ?case by (simp add: pres_refl)
next
  case (Cons d ds)
  show ?case
  proof (cases "subscript d ''name''")
    case (Inl e)
    with Cons.prems show ?thesis by (simp add: pres_refl)
  next
    case (Inr dep)
    show ?thesis
    proof (cases "find (\<lambda>m. JStr (name (heap s m)) = dep) (local_list s)")
      case (Some m)
      with Inr Cons.prems have "addMod_deps rec s spec ds = Some (r, s')" by simp
      then show ?thesis by (rule Cons.IH)
    next
      case None
      note no_local = None
      show ?thesis
      proof (cases "find (\<lambda>m. JStr (name (heap s m)) = dep) (remote s)")
        case None
        with Inr no_local Cons.prems have "addMod_deps rec s spec ds = Some (r, s')" by simp
        then show ?thesis by (rule Cons.IH)
      next
        case (Some m)
        note in_remote = Some
        show ?thesis
        proof (cases "rec s m (Some spec)")
          case None
          with Inr no_local in_remote Cons.prems show ?thesis by simp
        next
          case (Some res)
          obtain r1 s1 where res: "res = (r1, s1)" by (cases res)
          have p1: "pres s s1" using Some res rec by blast
          show ?thesis
          proof (cases r1)
            case (Inl e)
            with Inr no_local in_remote Some res Cons.prems have "s' = s1" by simp
            with p1 show ?thesis by simp
          next
            case (Inr v)
            with \<open>subscript d ''name'' = Inr dep\<close> no_local in_remote Some res Cons.prems
            have "addMod_deps rec s1 spec ds = Some (r, s')" by simp
            then have "pres s1 s'" by (rule Cons.IH)
            with p1 show ?thesis by (rule pres_trans)
          qed
        qed
      qed
    qed
  qed
qed

lemma addMod_pres: "addMod k s spec f = Some (r, s') \<Longrightarrow> pres s s'"
proof (induction k arbitrary: s spec f r s')
  case 0
  then show ?case by simp
next
  case (Suc k)
  show ?case
  proof (cases "find_name (heap s) (name (heap s spec)) (local_list s)")
    case (Some m)
    from Suc.prems show ?thesis
      unfolding addMod_Suc_found [OF Some]
      by (auto simp: pres_refl unqueue_pres split: if_splits)
  next
    case None
    have d: "addMod_deps (addMod k) (staged s spec f) (chosen s spec)
               (dependencies (heap s (chosen s spec))) = Some (r, s')"
      using Suc.prems unfolding addMod_Suc_fresh [OF None] .
    have "pres (staged s spec f) s'"
      using d by (rule addMod_deps_pres [rotated]) (rule Suc.IH)
    with staged_pres [OF None] show ?thesis by (rule pres_trans)
  qed
qed

lemma pres_rnames: "pres s s' \<Longrightarrow> rnames s' = rnames s"
  by (simp add: pres_def rnames_def)

lemma pres_todo: "pres s s' \<Longrightarrow> todo s' \<le> todo s"
proof -
  assume p: "pres s s'"
  have "rnames s' - lnames s' \<subseteq> rnames s - lnames s"
    using pres_rnames [OF p] pres_lnames [OF p] by auto
  moreover have "finite (rnames s - lnames s)" by (simp add: rnames_def)
  ultimately show ?thesis unfolding todo_def by (rule card_mono [rotated])
qed

lemma staged_todo_less:
  assumes "name (heap s spec) \<in> rnames s" "name (heap s spec) \<notin> lnames s"
  shows "todo (staged s spec f) < todo s"
proof -
  have "rnames s - insert (name (heap s spec)) (lnames s) \<subset> rnames s - lnames s"
    using assms by auto
  moreover have "finite (rnames s - lnames s)" by (simp add: rnames_def)
  ultimately show ?thesis
    unfolding todo_def staged_rnames staged_lnames by (rule psubset_card_mono [rotated])
qed

lemma todo_positive:
  assumes "name (heap s spec) \<in> rnames s" "name (heap s spec) \<notin> lnames s"
  shows "0 < todo s"
  unfolding todo_def using assms by (intro card_gt_0_iff [THEN iffD2]) (auto simp: rnames_def)

text \<open>The loop over the dependencies returns when every recursive call it can make
  returns: such a call is made only for a remote record whose name the local catalog
  lacks.\<close>

lemma addMod_deps_returns:
  assumes rec: "\<And>s m f. m \<in> set (remote s) \<Longrightarrow> name (heap s m) \<notin> lnames s \<Longrightarrow> todo s \<le> n \<Longrightarrow>
                  \<exists>r s'. rec s m f = Some (r, s') \<and> pres s s'"
  shows "todo s \<le> n \<Longrightarrow> \<exists>r s'. addMod_deps rec s spec ds = Some (r, s')"
proof (induction ds arbitrary: s)
  case Nil
  then show ?case by simp
next
  case (Cons d ds)
  show ?case
  proof (cases "subscript d ''name''")
    case (Inl e)
    then show ?thesis by simp
  next
    case (Inr dep)
    show ?thesis
    proof (cases "find (\<lambda>m. JStr (name (heap s m)) = dep) (local_list s)")
      case (Some m)
      with Inr Cons.IH [OF Cons.prems] show ?thesis by simp
    next
      case None
      note no_local = None
      show ?thesis
      proof (cases "find (\<lambda>m. JStr (name (heap s m)) = dep) (remote s)")
        case None
        with Inr no_local Cons.IH [OF Cons.prems] show ?thesis by simp
      next
        case (Some m)
        then have m: "m \<in> set (remote s)" and nm: "JStr (name (heap s m)) = dep"
          by (auto simp: find_Some_iff)
        have "name (heap s m) \<notin> lnames s"
          using no_local nm by (auto simp: lnames_def find_None_iff)
        from rec [OF m this Cons.prems]
        obtain r1 s1 where r1: "rec s m (Some spec) = Some (r1, s1)" and p: "pres s s1"
          by blast
        have "todo s1 \<le> n" using pres_todo [OF p] Cons.prems by simp
        from Cons.IH [OF this] obtain r2 s2 where "addMod_deps rec s1 spec ds = Some (r2, s2)"
          by blast
        with Inr no_local Some r1 show ?thesis by (cases r1) simp_all
      qed
    qed
  qed
qed

lemma addMod_returns_aux:
  "(\<forall>s spec f. name (heap s spec) \<in> rnames s \<longrightarrow> name (heap s spec) \<notin> lnames s \<longrightarrow> todo s \<le> n \<longrightarrow>
       (\<exists>r s'. addMod n s spec f = Some (r, s'))) \<and>
   (\<forall>s spec ds. todo s \<le> n \<longrightarrow> (\<exists>r s'. addMod_deps (addMod n) s spec ds = Some (r, s')))"
proof (induction n)
  case 0
  have first: "\<forall>s spec f. name (heap s spec) \<in> rnames s \<longrightarrow> name (heap s spec) \<notin> lnames s \<longrightarrow>
                 todo s \<le> 0 \<longrightarrow> (\<exists>r s'. addMod 0 s spec f = Some (r, s'))"
    using todo_positive by fastforce
  have "\<exists>r s'. addMod_deps (addMod 0) s spec ds = Some (r, s')" if t: "todo s \<le> 0"
    for s spec ds
  proof (rule addMod_deps_returns [OF _ t])
    fix s :: Patcher and m :: ref and f :: "ref option"
    assume "m \<in> set (remote s)" "name (heap s m) \<notin> lnames s" "todo s \<le> 0"
    then have False using todo_positive [of s m] by (auto simp: rnames_def)
    then show "\<exists>r s'. addMod 0 s m f = Some (r, s') \<and> pres s s'" ..
  qed
  with first show ?case by blast
next
  case (Suc n)
  have first: "\<exists>r s'. addMod (Suc n) s spec f = Some (r, s')"
    if a: "name (heap s spec) \<in> rnames s" "name (heap s spec) \<notin> lnames s" "todo s \<le> Suc n"
    for s spec f
  proof -
    have nf: "find_name (heap s) (name (heap s spec)) (local_list s) = None"
      using a(2) by (simp add: find_name_None lnames_def)
    have "todo (staged s spec f) \<le> n"
      using staged_todo_less [OF a(1,2), of f] a(3) by simp
    with Suc.IH show ?thesis unfolding addMod_Suc_fresh [OF nf] by blast
  qed
  have "\<exists>r s'. addMod_deps (addMod (Suc n)) s spec ds = Some (r, s')" if t: "todo s \<le> Suc n"
    for s spec ds
  proof (rule addMod_deps_returns [OF _ t])
    fix s :: Patcher and m :: ref and f :: "ref option"
    assume m: "m \<in> set (remote s)" "name (heap s m) \<notin> lnames s" "todo s \<le> Suc n"
    have "name (heap s m) \<in> rnames s" using m(1) by (simp add: rnames_def)
    from first [OF this m(2,3)] obtain r s' where "addMod (Suc n) s m f = Some (r, s')" by blast
    then show "\<exists>r s'. addMod (Suc n) s m f = Some (r, s') \<and> pres s s'"
      using addMod_pres by blast
  qed
  with first show ?case by blast
qed

lemma addMod_returns:
  assumes "todo s \<le> n"
  shows "\<exists>r s'. addMod (Suc n) s spec f = Some (r, s')"
proof (cases "find_name (heap s) (name (heap s spec)) (local_list s)")
  case (Some m)
  show ?thesis unfolding addMod_Suc_found [OF Some] by simp
next
  case None
  have "todo (staged s spec f) \<le> n"
    using pres_todo [OF staged_pres [OF None]] assms by (rule le_trans)
  with addMod_returns_aux [of n] show ?thesis unfolding addMod_Suc_fresh [OF None] by blast
qed

lemma todo_le: "todo s \<le> length (remote s)"
proof -
  have "todo s \<le> card (rnames s)" unfolding todo_def by (rule card_mono) (auto simp: rnames_def)
  also have "\<dots> \<le> card (set (remote s))" unfolding rnames_def by (rule card_image_le) simp
  also have "\<dots> \<le> length (remote s)" by (rule card_length)
  finally show ?thesis .
qed

text \<open>
  Claim C1, as amended. \<open>addMod\<close> returns on every state, for every record and every
  caller: a record is appended to the local catalog (step three) before its dependencies
  are processed (step four), so a dependency that names a record still being resolved is
  found in the local catalog and skipped. Every recursive call adds a remote name to the
  local catalog, hence a depth of one more than the length of the remote list is never
  exceeded, whatever the dependency lists are, circular or not.
\<close>

theorem addMod_terminates:
  "addMod (Suc (length (remote s) + k)) s spec fromSpec \<noteq> None"
proof -
  have "todo s \<le> length (remote s) + k" using todo_le [of s] by simp
  from addMod_returns [OF this, of spec fromSpec] show ?thesis by auto
qed

theorem addMod_terminates_witness:
  "addMod 3 cycle_state 0 None \<noteq> None \<and> addMod 4 cycle_state 1 (Some 0) \<noteq> None"
  using addMod_terminates [of cycle_state 0 0 None] addMod_terminates [of cycle_state 1 1 "Some 0"]
  by (simp add: cycle_state_def eval_nat_numeral)

text \<open>
  Claim C1, as the specification states it, fails: for the circular chain of
  \<open>cycle_state\<close> (\<open>A\<close> depends on \<open>B\<close>, \<open>B\<close> on \<open>A\<close>, both remote only) the call for \<open>A\<close>
  returns \<open>True\<close> at depth two, with \<open>A\<close> and \<open>B\<close> queued once each.
\<close>

theorem addMod_cycle_returns:
  "map_option fst (addMod 2 cycle_state 0 None) = Some (Inr PyTrue) \<and>
   map_option (local_list \<circ> snd) (addMod 2 cycle_state 0 None) = Some [0, 1] \<and>
   map_option (need_install_list \<circ> snd) (addMod 2 cycle_state 0 None) = Some [0, 1]"
  by code_simp

lemma addMod_queued:
  assumes "addMod k s spec f = Some (r, s1)"
  shows "name (heap s spec) \<in> lnames s1"
proof (cases "find_name (heap s) (name (heap s spec)) (local_list s)")
  case (Some m)
  from find_name_Some [OF this] have "name (heap s spec) \<in> lnames s"
    unfolding lnames_def by (metis image_eqI)
  with pres_lnames [OF addMod_pres [OF assms]] show ?thesis by auto
next
  case None
  obtain k' where k: "k = Suc k'" using assms by (cases k) auto
  have "addMod_deps (addMod k') (staged s spec f) (chosen s spec)
          (dependencies (heap s (chosen s spec))) = Some (r, s1)"
    using assms unfolding k addMod_Suc_fresh [OF None] .
  then have "pres (staged s spec f) s1"
    by (rule addMod_deps_pres [rotated]) (rule addMod_pres)
  from pres_lnames [OF this] show ?thesis by (auto simp: staged_lnames)
qed

lemma addMod_counts:
  assumes first: "addMod k s spec f = Some (r, s1)"
    and fresh: "name (heap s spec) \<notin> lnames s"
    and unqueued: "count_name (heap s) (name (heap s spec)) (need_install_list s) = 0"
  shows "count_name (heap s1) (name (heap s spec)) (local_list s1) = 1 \<and>
         count_name (heap s1) (name (heap s spec)) (need_install_list s1) = 1"
proof -
  have nf: "find_name (heap s) (name (heap s spec)) (local_list s) = None"
    using fresh by (simp add: find_name_None lnames_def)
  obtain k' where k: "k = Suc k'" using first by (cases k) auto
  have "addMod_deps (addMod k') (staged s spec f) (chosen s spec)
          (dependencies (heap s (chosen s spec))) = Some (r, s1)"
    using first unfolding k addMod_Suc_fresh [OF nf] .
  then have p: "pres (staged s spec f) s1"
    by (rule addMod_deps_pres [rotated]) (rule addMod_pres)
  have zero: "count_name (heap s) (name (heap s spec)) (local_list s) = 0"
    using fresh by (simp add: lnames_count)
  have "name (heap s spec) \<in> lnames (staged s spec f)" by (simp add: staged_lnames)
  with p show ?thesis
    unfolding pres_def
    by (simp add: staged_count_local staged_count_install zero unqueued)
qed

text \<open>
  Claim C4. After a call of \<open>addMod\<close> for a record (whether it returned or raised while
  processing the dependencies), a second call with any record of the same name stops at
  step one: it returns \<open>None\<close> (the value of the bare \<open>return\<close> of step one, where a call
  that queues returns \<open>True\<close>) and leaves the local catalog, the install queue, the remote
  list, the update queue and the disk as they were. With \<open>m\<close> the local record of that
  name: when \<open>m\<close> is not marked for uninstallation the state is unchanged altogether;
  when it is, \<open>m\<close> is taken out of the uninstall queue and its mark is cleared, nothing
  else. When no local record and no record of the install queue had the name before the
  first call, exactly one record of the local catalog and exactly one of the install
  queue have it after the second call.
\<close>

theorem addMod_idempotent:
  assumes first: "addMod k s spec f = Some (r1, s1)"
    and same: "name (heap s1 spec2) = name (heap s spec)"
  shows "\<exists>m s2.
           find_name (heap s1) (name (heap s spec)) (local_list s1) = Some m \<and>
           addMod (Suc j) s1 spec2 f2 = Some (Inr PyNone, s2) \<and>
           local_list s2 = local_list s1 \<and> need_install_list s2 = need_install_list s1 \<and>
           remote s2 = remote s1 \<and> need_update_list s2 = need_update_list s1 \<and>
           fs s2 = fs s1 \<and>
           (\<not> truthy (need_uninstall (heap s1 m)) \<longrightarrow> s2 = s1) \<and>
           (truthy (need_uninstall (heap s1 m)) \<longrightarrow>
              s2 = s1\<lparr> need_uninstall_list := remove1 m (need_uninstall_list s1),
                        heap := (heap s1)(m := (heap s1 m)\<lparr> need_uninstall := FBool False \<rparr>) \<rparr>) \<and>
           (name (heap s spec) \<notin> lnames s \<and>
            count_name (heap s) (name (heap s spec)) (need_install_list s) = 0 \<longrightarrow>
              count_name (heap s2) (name (heap s spec)) (local_list s2) = 1 \<and>
              count_name (heap s2) (name (heap s spec)) (need_install_list s2) = 1)"
proof -
  let ?n = "name (heap s spec)"
  have "?n \<in> lnames s1" using first by (rule addMod_queued)
  then obtain m where m: "find_name (heap s1) ?n (local_list s1) = Some m"
    by (cases "find_name (heap s1) ?n (local_list s1)") (auto simp: find_name_None lnames_def)
  have m': "find_name (heap s1) (name (heap s1 spec2)) (local_list s1) = Some m"
    using m same by simp
  define s2 where
    "s2 = (if truthy (need_uninstall (heap s1 m))
           then s1\<lparr> need_uninstall_list := remove1 m (need_uninstall_list s1),
                    heap := (heap s1)(m := (heap s1 m)\<lparr> need_uninstall := FBool False \<rparr>) \<rparr>
           else s1)"
  have call: "addMod (Suc j) s1 spec2 f2 = Some (Inr PyNone, s2)"
    unfolding addMod_Suc_found [OF m'] s2_def by simp
  have lists: "local_list s2 = local_list s1" "need_install_list s2 = need_install_list s1"
    "remote s2 = remote s1" "need_update_list s2 = need_update_list s1" "fs s2 = fs s1"
    by (simp_all add: s2_def)
  have names: "\<forall>r. name (heap s2 r) = name (heap s1 r)" by (simp add: s2_def)
  have counts: "count_name (heap s2) ?n (local_list s2) = 1 \<and>
                count_name (heap s2) ?n (need_install_list s2) = 1"
    if "?n \<notin> lnames s" "count_name (heap s) ?n (need_install_list s) = 0"
    using addMod_counts [OF first that] by (simp add: lists count_name_cong [OF names])
  from m call lists counts show ?thesis
    by (intro exI [of _ m] exI [of _ s2]) (simp add: s2_def)
qed

theorem addMod_idempotent_witness:
  "\<exists>s1 s2. addMod 2 cycle_state 0 None = Some (Inr PyTrue, s1) \<and>
            addMod 1 s1 0 None = Some (Inr PyNone, s2) \<and> s2 = s1 \<and>
            local_list s2 = [0, 1] \<and> need_install_list s2 = [0, 1] \<and>
            count_name (heap s2) ''A'' (local_list s2) = 1 \<and>
            count_name (heap s2) ''A'' (need_install_list s2) = 1"
proof -
  define s1 where "s1 = snd (the (addMod 2 cycle_state 0 None))"
  have "map_option fst (addMod 2 cycle_state 0 None) = Some (Inr PyTrue)"
    by code_simp
  then have first: "addMod 2 cycle_state 0 None = Some (Inr PyTrue, s1)"
    unfolding s1_def by (cases "addMod 2 cycle_state 0 None") auto
  have same: "name (heap s1 0) = name (heap cycle_state 0)"
    unfolding s1_def by code_simp
  have nm: "name (heap cycle_state 0) = ''A''" by code_simp
  have fresh: "name (heap cycle_state 0) \<notin> lnames cycle_state"
    by (simp add: lnames_def cycle_state_def)
  have unq: "count_name (heap cycle_state) (name (heap cycle_state 0))
               (need_install_list cycle_state) = 0"
    by (simp add: count_name_def cycle_state_def)
  have m0: "find_name (heap s1) (name (heap cycle_state 0)) (local_list s1) = Some 0"
    unfolding s1_def by code_simp
  have keep: "\<not> truthy (need_uninstall (heap s1 0))"
    unfolding s1_def by code_simp
  have l: "local_list s1 = [0, 1]" "need_install_list s1 = [0, 1]"
    unfolding s1_def by code_simp+
  from addMod_idempotent [OF first same, of 0 None]
  obtain m s2 where
    "find_name (heap s1) (name (heap cycle_state 0)) (local_list s1) = Some m"
    "addMod (Suc 0) s1 0 None = Some (Inr PyNone, s2)"
    "\<not> truthy (need_uninstall (heap s1 m)) \<longrightarrow> s2 = s1"
    "name (heap cycle_state 0) \<notin> lnames cycle_state \<and>
       count_name (heap cycle_state) (name (heap cycle_state 0)) (need_install_list cycle_state) = 0 \<longrightarrow>
       count_name (heap s2) (name (heap cycle_state 0)) (local_list s2) = 1 \<and>
       count_name (heap s2) (name (heap cycle_state 0)) (need_install_list s2) = 1"
    by blast
  with m0 keep fresh unq nm l first show ?thesis by auto
qed

section \<open>Queueing a removal\<close>

lemma dep_hits_wf:
  "list_all has_name ds \<Longrightarrow>
   dep_hits target owner ds =
     Inr (map (\<lambda>d. owner) (filter (\<lambda>d. subscript d ''name'' = Inr (JStr target)) ds))"
proof (induction ds)
  case Nil
  then show ?case by simp
next
  case (Cons d ds)
  then obtain v where v: "subscript d ''name'' = Inr v"
    by (auto simp: has_name_def split: sum.splits)
  with Cons show ?case by (auto simp: and_then_def)
qed

lemma scan_local_wf:
  "list_all (\<lambda>m. list_all has_name (dependencies (h m))) ms \<Longrightarrow>
   scan_local h target ms =
     Inr (concat (map (\<lambda>m. map (\<lambda>d. name (h m))
                          (filter (\<lambda>d. subscript d ''name'' = Inr (JStr target)) (dependencies (h m))))
                  ms))"
  by (induction ms) (simp_all add: dep_hits_wf and_then_def)

lemma scan_local_dependents:
  "wf_dependencies s \<Longrightarrow> scan_local (heap s) n (local_list s) = Inr (dependents s n)"
  unfolding wf_dependencies_def dependents_def by (rule scan_local_wf)

lemma dependents_complete:
  "m \<in> set (local_list s) \<Longrightarrow> depends_on (heap s m) n \<Longrightarrow> name (heap s m) \<in> set (dependents s n)"
  unfolding dependents_def depends_on_def list_ex_iff by auto

text \<open>
  What \<open>removeMod\<close> does on the catalogs that the remote listing produces. Take an
  installed record (not queued for installation, \<open>is_local\<close> set) and a local catalog
  whose dependency entries all carry a name. With \<open>force\<close> unset,
  \<open>removeMod\<close> raises the dependency conflict as soon as the record has a dependent: the
  message lists the dependents, every local record that depends on the target is among
  them, and the state is unchanged. With \<open>force\<close> set it returns \<open>True\<close>, whatever the
  dependents: the record is taken out of the update queue (the first occurrence, as
  \<open>list.remove\<close> does; all of it when the queue has no repetition), \<open>need_update\<close> and
  \<open>need_install\<close> are cleared, \<open>need_uninstall\<close> is set, and the record is appended to
  the uninstall queue; the other lists and the disk are untouched.
\<close>

lemma removeMod_wellformed:
  assumes installed: "\<not> truthy (need_install (heap s spec))" "truthy (is_local (heap s spec))"
    and wf: "wf_dependencies s"
  shows "(dependents s (name (heap s spec)) \<noteq> [] \<longrightarrow>
            removeMod s spec False =
              (Inl (RuntimeError (conflict_message (dependents s (name (heap s spec))))), s)) \<and>
         (\<forall>m \<in> set (local_list s).
            depends_on (heap s m) (name (heap s spec)) \<longrightarrow>
              dependents s (name (heap s spec)) \<noteq> [] \<and>
              name (heap s m) \<in> set (dependents s (name (heap s spec)))) \<and>
         removeMod s spec True = (Inr PyTrue, unstaged s spec) \<and>
         need_uninstall_list (unstaged s spec) = need_uninstall_list s @ [spec] \<and>
         need_update_list (unstaged s spec) = remove1 spec (need_update_list s) \<and>
         (distinct (need_update_list s) \<longrightarrow> spec \<notin> set (need_update_list (unstaged s spec))) \<and>
         need_uninstall (heap (unstaged s spec) spec) = FBool True \<and>
         need_install (heap (unstaged s spec) spec) = FBool False \<and>
         need_update (heap (unstaged s spec) spec) = FBool False \<and>
         local_list (unstaged s spec) = local_list s \<and>
         need_install_list (unstaged s spec) = need_install_list s \<and>
         remote (unstaged s spec) = remote s \<and> fs (unstaged s spec) = fs s"
proof -
  let ?n = "name (heap s spec)"
  note scan = scan_local_dependents [OF wf, of ?n]
  have conflict: "removeMod s spec False = (Inl (RuntimeError (conflict_message (dependents s ?n))), s)"
    if "dependents s ?n \<noteq> []"
    using installed that by (simp add: removeMod_def scan)
  have forced: "removeMod s spec True = (Inr PyTrue, unstaged s spec)"
  proof (cases "spec \<in> set (need_update_list s)")
    case True
    with installed show ?thesis by (simp add: removeMod_def scan unstaged_def Let_def)
  next
    case False
    with installed show ?thesis
      by (simp add: removeMod_def scan unstaged_def Let_def remove1_idem)
  qed
  have named: "dependents s ?n \<noteq> [] \<and> name (heap s m) \<in> set (dependents s ?n)"
    if "m \<in> set (local_list s)" "depends_on (heap s m) ?n" for m
    using dependents_complete [OF that] by auto
  have gone: "spec \<notin> set (need_update_list (unstaged s spec))" if "distinct (need_update_list s)"
    using that by (simp add: unstaged_def)
  from conflict forced named gone show ?thesis
    by (simp add: unstaged_def)
qed

lemma removeMod_wellformed_example:
  "removeMod dep_state 0 False =
     (Inl (RuntimeError
        ''Other mods depend on this package. Uninstall the following mods first: L''), dep_state) \<and>
   fst (removeMod dep_state 0 True) = Inr PyTrue \<and>
   need_uninstall_list (snd (removeMod dep_state 0 True)) = [0] \<and>
   need_update_list (snd (removeMod dep_state 0 True)) = [] \<and>
   need_uninstall (heap (snd (removeMod dep_state 0 True)) 0) = FBool True"
proof -
  have a: "\<not> truthy (need_install (heap dep_state 0))" "truthy (is_local (heap dep_state 0))"
    by (simp_all add: dep_state_def core_C_def ModSpec_init_def)
  have wf: "wf_dependencies dep_state"
    by (simp add: wf_dependencies_def dep_state_def core_C_def lib_L_def ModSpec_init_def
        has_name_def)
  have d: "dependents dep_state (name (heap dep_state 0)) = [''L'']"
    by (simp add: dependents_def dep_state_def core_C_def lib_L_def ModSpec_init_def)
  have u: "need_update_list dep_state = [0]" "need_uninstall_list dep_state = []"
    by (simp_all add: dep_state_def)
  from removeMod_wellformed [OF a wf] show ?thesis
    by (simp add: d u conflict_message_def unstaged_def)
qed


text \<open>
  Claim C5 on the code. The claim fails in two ways.

  The documentation of \<open>ModSpec\<close> gives the dependencies of a manifest as a list of names.
  \<open>fromSpecFile\<close> takes such a manifest as it is, and \<open>removeMod\<close> subscripts every
  dependency entry of every local record with \<open>"name"\<close>: with one such record in the local
  catalog, the removal of any installed record raises \<open>TypeError\<close>, with \<open>force\<close> unset and
  with \<open>force\<close> set, where the claim has the dependency conflict and the success.

  The update check of \<open>refreshMods\<close> appends the local record to the update queue once for
  every newer remote entry of its name, and \<open>removeMod\<close> takes one occurrence out. With two
  newer entries the forced removal returns \<open>True\<close> and the record is in the uninstall queue,
  but it is still in the update queue: the install set of the next \<open>patch\<close> holds the
  remote record of version 1.1.0, which would be installed in place of the package that
  was to be removed.
\<close>

theorem removeMod_diverges:
  "fromSpecFile names_manifest = Inr names_L \<and>
   heap names_state 1 = names_L \<and> local_list names_state = [0, 1] \<and>
   \<not> truthy (need_install (heap names_state 0)) \<and> truthy (is_local (heap names_state 0)) \<and>
   removeMod names_state 0 False = (Inl TypeError, names_state) \<and>
   removeMod names_state 0 True = (Inl TypeError, names_state) \<and>
   need_update_list two_newer = [] \<and>
   need_update_list twice_queued = [0, 0] \<and>
   \<not> truthy (need_install (heap twice_queued 0)) \<and> truthy (is_local (heap twice_queued 0)) \<and>
   fst (removeMod twice_queued 0 True) = Inr PyTrue \<and>
   need_uninstall_list (snd (removeMod twice_queued 0 True)) = [0] \<and>
   need_update_list (snd (removeMod twice_queued 0 True)) = [0] \<and>
   install_set (snd (removeMod twice_queued 0 True)) = [1] \<and>
   name (heap (snd (removeMod twice_queued 0 True)) 1) = ''X'' \<and>
   version (heap (snd (removeMod twice_queued 0 True)) 1) = [1, 1, 0]"
proof -
  have m: "fromSpecFile names_manifest = Inr names_L" by code_simp
  have h: "heap names_state 1 = names_L" "local_list names_state = [0, 1]"
    by (simp_all add: names_state_def)
  have i: "\<not> truthy (need_install (heap names_state 0))" "truthy (is_local (heap names_state 0))"
    by (simp_all add: names_state_def core_C_def ModSpec_init_def)
  have scan: "scan_local (heap names_state) (name (heap names_state 0)) (local_list names_state) =
                Inl TypeError"
    by code_simp
  have r: "removeMod names_state 0 force = (Inl TypeError, names_state)" for force
    using i by (simp add: removeMod_def scan)
  have q: "need_update_list two_newer = []" by (simp add: two_newer_def)
  have u: "need_update_list twice_queued = [0, 0]" by code_simp
  have j: "\<not> truthy (need_install (heap twice_queued 0))" "truthy (is_local (heap twice_queued 0))"
    by code_simp+
  have f: "fst (removeMod twice_queued 0 True) = Inr PyTrue"
    "need_uninstall_list (snd (removeMod twice_queued 0 True)) = [0]"
    "need_update_list (snd (removeMod twice_queued 0 True)) = [0]"
    "install_set (snd (removeMod twice_queued 0 True)) = [1]"
    "name (heap (snd (removeMod twice_queued 0 True)) 1) = ''X''"
    "version (heap (snd (removeMod twice_queued 0 True)) 1) = [1, 1, 0]"
    by code_simp+
  from m h i r [of False] r [of True] q u j f show ?thesis by (intro conjI)
qed

section \<open>Version comparison and the update check\<close>

lemma spec_pad_Cons:
  "spec_pad (max (length (x # xs)) (length (y # ys))) (x # xs) =
     x # spec_pad (max (length xs) (length ys)) xs"
  by (simp add: spec_pad_def)

lemma spec_pad_Cons2:
  "spec_pad (max (length (x # xs)) (length (y # ys))) (y # ys) =
     y # spec_pad (max (length xs) (length ys)) ys"
  by (simp add: spec_pad_def)

lemma zeros_below: "nonneg b \<Longrightarrow> lex_lt (replicate (length b) 0) b \<or> replicate (length b) 0 = b"
  by (induction b) (auto simp: nonneg_def)

lemma not_below_zeros: "nonneg a \<Longrightarrow> \<not> lex_lt a (replicate (length a) 0)"
  by (induction a) (auto simp: nonneg_def)

lemma list_lt_padded_aux:
  "nonneg a \<Longrightarrow> nonneg b \<Longrightarrow>
   list_lt a b \<longleftrightarrow> (spec_version_lt a b \<or> (spec_version_eq a b \<and> length a < length b))"
proof (induction a b rule: list_lt.induct)
  case 1
  then show ?case by (simp add: spec_version_lt_def spec_version_eq_def spec_pad_def)
next
  case (2 y ys)
  from zeros_below [OF 2(2)] show ?case
    by (simp add: spec_version_lt_def spec_version_eq_def spec_pad_def)
next
  case (3 x xs)
  from not_below_zeros [OF 3(1)] show ?case
    by (simp add: spec_version_lt_def spec_version_eq_def spec_pad_def)
next
  case (4 x xs y ys)
  have n: "nonneg xs" "nonneg ys" using 4(2,3) by (simp_all add: nonneg_def)
  show ?case
  proof (cases "x = y")
    case True
    with "4.IH" [OF True n] show ?thesis
      unfolding spec_version_lt_def spec_version_eq_def spec_pad_Cons spec_pad_Cons2 by simp
  next
    case False
    then show ?thesis
      unfolding spec_version_lt_def spec_version_eq_def spec_pad_Cons spec_pad_Cons2 by simp
  qed
qed

lemma list_lt_same_length:
  "length a = length b \<Longrightarrow> list_lt a b \<longleftrightarrow> spec_version_lt a b"
proof (induction a b rule: list_lt.induct)
  case (4 x xs y ys)
  then show ?case
    unfolding spec_version_lt_def spec_pad_Cons spec_pad_Cons2 by auto
qed (simp_all add: spec_version_lt_def spec_pad_def)

text \<open>
  Claim C6, as amended. The update check compares versions with Python's order on
  lists: the first position where the sequences differ decides, and a sequence that is
  a proper beginning of the other is the smaller one. For sequences of non-negative
  components this is the zero-padded component-wise order with one exception: two
  sequences that are equal after padding are not equal for the program, the shorter one
  is the smaller. For sequences of the same length the two orders agree. In particular
  \<open>[1,2] < [1,2,1]\<close> and \<open>[1,9] < [1,10]\<close>, and a sequence is smaller than itself
  extended with zeros. In \<open>refreshMods\<close>, a local record that meets a remote record of
  its name is queued for update exactly when its version is smaller in this order.
\<close>

theorem list_lt_padded:
  "(nonneg a \<and> nonneg b \<longrightarrow>
      (list_lt a b \<longleftrightarrow> (spec_version_lt a b \<or> (spec_version_eq a b \<and> length a < length b)))) \<and>
   (length a = length b \<longrightarrow> (list_lt a b \<longleftrightarrow> spec_version_lt a b)) \<and>
   list_lt [1, 2] [1, 2, 1] \<and> list_lt [1, 9] [1, 10] \<and>
   (nonneg a \<longrightarrow> list_lt a (a @ replicate (Suc k) 0)) \<and>
   (name (heap s spec) = name (heap s rspec) \<and> spec \<noteq> rspec \<longrightarrow>
      need_update_list (check_remote s spec [rspec]) =
        (if list_lt (version (heap s spec)) (version (heap s rspec))
         then need_update_list s @ [spec] else need_update_list s))"
proof -
  have ext: "list_lt a (a @ replicate (Suc k) 0)"
    by (induction a) simp_all
  have chk: "need_update_list (check_remote s spec [rspec]) =
        (if list_lt (version (heap s spec)) (version (heap s rspec))
         then need_update_list s @ [spec] else need_update_list s)"
    if "name (heap s spec) = name (heap s rspec)" "spec \<noteq> rspec"
    using that by (simp add: Let_def)
  from list_lt_padded_aux list_lt_same_length ext chk show ?thesis by simp
qed

theorem list_lt_padded_witness:
  "nonneg [1, 2] \<and> nonneg [1, 3, 0] \<and>
   (list_lt [1, 2] [1, 3, 0] \<longleftrightarrow>
      (spec_version_lt [1, 2] [1, 3, 0] \<or>
       (spec_version_eq [1, 2] [1, 3, 0] \<and> length [1, 2 :: int] < length [1, 3, 0 :: int]))) \<and>
   list_lt [1, 2] [1, 3, 0] \<and>
   (list_lt [2, 0] [2, 1] \<longleftrightarrow> spec_version_lt [2, 0] [2, 1]) \<and>
   list_lt [1, 2] ([1, 2] @ replicate (Suc 0) 0) \<and>
   need_update_list (check_remote ver_state 0 [1]) = [0]"
proof -
  have n: "nonneg [1, 2]" "nonneg [1, 3, 0]" by (simp_all add: nonneg_def)
  have l: "list_lt [1, 2] [1, 3, 0]" by simp
  have v: "name (heap ver_state 0) = name (heap ver_state 1) \<and> (0::nat) \<noteq> 1"
    "list_lt (version (heap ver_state 0)) (version (heap ver_state 1))"
    "need_update_list ver_state = []"
    by (simp_all add: ver_state_def ModSpec_init_def)
  note t = list_lt_padded [of "[1, 2]" "[1, 3, 0]" 0 ver_state 0 1]
  note t2 = list_lt_padded [of "[2, 0]" "[2, 1]" 0 ver_state 0 1]
  note t3 = list_lt_padded [of "[1, 2]" "[1, 2]" 0 ver_state 0 1]
  have a: "list_lt [1, 2] [1, 3, 0] \<longleftrightarrow>
      (spec_version_lt [1, 2] [1, 3, 0] \<or>
       (spec_version_eq [1, 2] [1, 3, 0] \<and> length [1, 2 :: int] < length [1, 3, 0 :: int]))"
    by (rule t [THEN conjunct1, rule_format]) (simp add: n)
  have b: "list_lt [2, 0] [2, 1] \<longleftrightarrow> spec_version_lt [2, 0] [2, 1]"
    by (rule t2 [THEN conjunct2, THEN conjunct1, rule_format]) simp
  have c: "list_lt [1, 2] ([1, 2] @ replicate (Suc 0) 0)"
    by (rule t3 [THEN conjunct2, THEN conjunct2, THEN conjunct2, THEN conjunct2,
          THEN conjunct1, rule_format]) (rule n(1))
  have "need_update_list (check_remote ver_state 0 [1]) =
          (if list_lt (version (heap ver_state 0)) (version (heap ver_state 1))
           then need_update_list ver_state @ [0] else need_update_list ver_state)"
    by (rule t3 [THEN conjunct2, THEN conjunct2, THEN conjunct2, THEN conjunct2,
          THEN conjunct2, rule_format]) (rule v(1))
  then have d: "need_update_list (check_remote ver_state 0 [1]) = [0]"
    by (simp only: v(2,3) if_True append_Nil)
  show ?thesis
    by (intro conjI n l a b c d)
qed

text \<open>
  Claim C6, as the specification states it, fails: the program finds version 1.2
  smaller than version 1.2.0, which are equal after padding with zeros, and queues the
  package for an update.
\<close>

theorem list_lt_trailing_zero:
  "list_lt [1, 2] [1, 2, 0] \<and> \<not> spec_version_lt [1, 2] [1, 2, 0] \<and>
   spec_version_eq [1, 2] [1, 2, 0] \<and>
   need_update_list (check_updates ver_state (local_list ver_state)) = [0]"
  by (simp add: spec_version_lt_def spec_version_eq_def spec_pad_def ver_state_def
      ModSpec_init_def Let_def)

section \<open>Manifests\<close>

lemma ints_of_map: "ints_of (map JInt v) = Inr v"
  by (induction v) (simp_all add: and_then_def)

lemma truthy_int_of_flag: "(int_of_flag f \<noteq> 0) = truthy f"
  by (cases f) simp_all

lemma fromSpecFile_writeSpecFile: "fromSpecFile (writeSpecFile r) = Inr (reloaded r)"
  by (simp add: fromSpecFile_def writeSpecFile_def reloaded_def and_then_def get_str_def
      get_list_def get_ints_def get_flag_def ints_of_map)

text \<open>
  Claim C7. Parsing the manifest that \<open>writeSpecFile\<close> produces from a record never
  fails and yields a record with the same id, name, version, url, files and
  dependencies. Each of the six flags comes back as the integer it was encoded as (1 for
  \<open>True\<close>, 0 for \<open>False\<close>), which Python's \<open>==\<close> identifies with the original value and
  which has the same truth value. Serialising the record that came back gives the same
  manifest again. (The category, the game version and the two transient fields are not
  part of a manifest; the parsed record carries the constructor's defaults for them.)
\<close>

theorem manifest_round_trip:
  "fromSpecFile (writeSpecFile r) = Inr (reloaded r) \<and>
   mod_id (reloaded r) = mod_id r \<and> name (reloaded r) = name r \<and>
   version (reloaded r) = version r \<and> url (reloaded r) = url r \<and>
   files (reloaded r) = files r \<and> dependencies (reloaded r) = dependencies r \<and>
   flag_eq (ignore (reloaded r)) (ignore r) \<and> truthy (ignore (reloaded r)) = truthy (ignore r) \<and>
   flag_eq (is_local (reloaded r)) (is_local r) \<and>
   truthy (is_local (reloaded r)) = truthy (is_local r) \<and>
   flag_eq (is_remote (reloaded r)) (is_remote r) \<and>
   truthy (is_remote (reloaded r)) = truthy (is_remote r) \<and>
   flag_eq (need_update (reloaded r)) (need_update r) \<and>
   truthy (need_update (reloaded r)) = truthy (need_update r) \<and>
   flag_eq (need_install (reloaded r)) (need_install r) \<and>
   truthy (need_install (reloaded r)) = truthy (need_install r) \<and>
   flag_eq (need_uninstall (reloaded r)) (need_uninstall r) \<and>
   truthy (need_uninstall (reloaded r)) = truthy (need_uninstall r) \<and>
   writeSpecFile (reloaded r) = writeSpecFile r"
  by (simp add: fromSpecFile_writeSpecFile)
     (simp add: reloaded_def ModSpec_init_def flag_eq_def truthy_int_of_flag writeSpecFile_def)

theorem manifest_round_trip_witness:
  "fromSpecFile (writeSpecFile sample_spec) = Inr (reloaded sample_spec) \<and>
   name (reloaded sample_spec) = ''SongCore'' \<and> version (reloaded sample_spec) = [2, 7, 1] \<and>
   is_local (reloaded sample_spec) = FInt 1 \<and> need_install (reloaded sample_spec) = FInt 0 \<and>
   flag_eq (is_local (reloaded sample_spec)) (FBool True)"
proof -
  have f: "is_local sample_spec = FBool True" "name sample_spec = ''SongCore''"
    "version sample_spec = [2, 7, 1]"
    by (simp_all add: sample_spec_def ModSpec_init_def)
  have g: "is_local (reloaded sample_spec) = FInt 1" "need_install (reloaded sample_spec) = FInt 0"
    by (simp_all add: reloaded_def sample_spec_def ModSpec_init_def)
  from manifest_round_trip [of sample_spec] f g show ?thesis by simp
qed

section \<open>Parsing a remote listing entry\<close>

text \<open>The version of the entry is parsed inside a \<open>try\<close>: whatever goes wrong there,
  the record gets the version 0.0.0 and the parse goes on.\<close>

lemma fromBeatMods_version_default:
  assumes "version_field d ''version'' = Inl e" "fromBeatMods d t = Inr r"
  shows "version r = [0, 0, 0]"
  using assms
  by (auto simp: fromBeatMods_def and_then_def ModSpec_init_def Let_def split: sum.splits)

text \<open>The game version is parsed outside of any \<open>try\<close>: when it fails, the whole
  construction fails with that exception.\<close>

lemma fromBeatMods_gameVersion_fatal:
  assumes "get_str d ''_id'' = Inr i" "get_str d ''name'' = Inr n"
    and "version_field d ''gameVersion'' = Inl e"
  shows "fromBeatMods d t = Inl e"
  using assms by (simp add: fromBeatMods_def and_then_def Let_def)

text \<open>
  Claim C8 on the code. An entry whose version is \<open>1.x\<close> is parsed into a record of
  version 0.0.0, as the claim says. An entry whose game version is \<open>1.x\<close> (all else
  equal) is not parsed at all: \<open>fromBeatMods\<close> raises \<open>ValueError\<close>.
\<close>

theorem fromBeatMods_gameVersion_raises:
  "map_sum id version (fromBeatMods (listing_entry ''1.x'' ''1.8.0'') ''steam'') = Inr [0, 0, 0] \<and>
   map_sum id gameVersion (fromBeatMods (listing_entry ''1.x'' ''1.8.0'') ''steam'') = Inr [1, 8, 0] \<and>
   fromBeatMods (listing_entry ''0.13.2'' ''1.x'') ''steam'' = Inl ValueError"
  by code_simp

section \<open>What every phase of \<open>patch\<close> keeps\<close>

lemma stretch_refl: "stretch P s s"
  by (simp add: stretch_def new_events_def)

lemma stretch_trace: "stretch P s s' \<Longrightarrow> trace s' = trace s @ new_events s s'"
  by (simp add: stretch_def)


lemma new_events_append:
  "trace s' = trace s @ a \<Longrightarrow> trace s'' = trace s' @ b \<Longrightarrow> new_events s s'' = a @ b"
  by (simp add: new_events_def)

lemma new_events_trans:
  assumes "stretch P s s'" "stretch Q s' s''"
  shows "new_events s s'' = new_events s s' @ new_events s' s''"
proof -
  have "trace s' = trace s @ new_events s s'" using assms(1) by (rule stretch_trace)
  moreover have "trace s'' = trace s' @ new_events s' s''" using assms(2) by (rule stretch_trace)
  ultimately show ?thesis by (rule new_events_append)
qed

lemma stretch_trans:
  assumes a: "stretch P s s'" and b: "stretch P s' s''"
  shows "stretch P s s''"
proof -
  have n: "new_events s s'' = new_events s s' @ new_events s' s''"
    using a b by (rule new_events_trans)
  show ?thesis
    using a b unfolding stretch_def n by simp
qed

lemma stretch_mono:
  assumes "stretch P s s'" "\<And>ev. P ev \<Longrightarrow> Q ev"
  shows "stretch Q s s'"
  using assms unfolding stretch_def list_all_iff by auto

lemma stretch_event:
  assumes "P ev"
  shows "stretch P s (s\<lparr> trace := trace s @ [ev] \<rparr>)"
  using assms by (simp add: stretch_def new_events_def)

lemma stretch_then_event:
  assumes "stretch P s s'" "P ev"
  shows "stretch P s (s'\<lparr> trace := trace s' @ [ev] \<rparr>)"
  using assms(1) stretch_event [of P ev s', OF assms(2)] by (rule stretch_trans)

lemma os_remove_stretch: "P (FileRemoved p) \<Longrightarrow> stretch P s (os_remove s p)"
  by (simp add: stretch_def new_events_def os_remove_def)

lemma write_file_stretch: "P (FileWritten r p) \<Longrightarrow> stretch P s (write_file s r p b)"
  by (simp add: stretch_def new_events_def write_file_def)

lemma heap_flags_stretch:
  assumes "\<forall>m. category (h m) = category (heap s m)"
  shows "stretch P s (s\<lparr> heap := h \<rparr>)"
  using assms by (simp add: stretch_def new_events_def)

subsection \<open>Uninstalling\<close>

lemma remove_files_stretch:
  assumes "\<And>p. P (FileRemoved p)"
  shows "stretch P s (snd (remove_files s fl))"
proof (induction fl arbitrary: s)
  case Nil
  show ?case by (simp add: stretch_refl)
next
  case (Cons f fl)
  show ?case
  proof (cases "and_then (subscript f ''file'') as_str")
    case (Inl err)
    then show ?thesis by (simp add: stretch_refl)
  next
    case (Inr n)
    let ?s1 = "if map_of (fs s) (Root n) = None then s else os_remove s (Root n)"
    have "stretch P s ?s1" by (simp add: stretch_refl os_remove_stretch assms)
    from this Cons.IH [of ?s1] have "stretch P s (snd (remove_files ?s1 fl))"
      by (rule stretch_trans)
    with Inr show ?thesis by simp
  qed
qed

lemma uninstallMod_stretch:
  assumes "\<And>p. P (FileRemoved p)"
  shows "stretch P s (snd (uninstallMod s r))"
proof (cases "truthy (is_local (heap s r))")
  case False
  then show ?thesis by (simp add: uninstallMod_def stretch_refl)
next
  case True
  obtain res s1 where rf: "remove_files s (files (heap s r)) = (res, s1)"
    by (cases "remove_files s (files (heap s r))")
  have s1: "stretch P s s1"
    using remove_files_stretch [of P s "files (heap s r)"] assms rf by simp
  show ?thesis
  proof (cases res)
    case (Inl err)
    with True rf s1 show ?thesis by (simp add: uninstallMod_def)
  next
    case (Inr u)
    let ?p = "Meta (getSpecFileName (heap s1 r))"
    have "stretch P s1 (if map_of (fs s1) ?p = None then s1 else os_remove s1 ?p)"
      by (simp add: stretch_refl os_remove_stretch assms)
    with s1 have "stretch P s (if map_of (fs s1) ?p = None then s1 else os_remove s1 ?p)"
      by (rule stretch_trans)
    with True rf Inr show ?thesis by (simp add: uninstallMod_def Let_def)
  qed
qed

lemma uninstall_all_stretch: "stretch no_install s (uninstall_all s ms)"
proof (induction ms arbitrary: s)
  case Nil
  show ?case by (simp add: stretch_refl)
next
  case (Cons m ms)
  obtain res s1 where u: "uninstallMod s m = (res, s1)" by (cases "uninstallMod s m")
  have s1: "stretch no_install s s1"
    using uninstallMod_stretch [of no_install s m] u by (simp add: no_install_def)
  show ?case
  proof (cases res)
    case (Inl err)
    have "stretch no_install s (s1\<lparr> trace := trace s1 @ [UninstallFailed m] \<rparr>)"
      using s1 by (rule stretch_then_event) (simp add: no_install_def)
    from this Cons.IH have
      "stretch no_install s (uninstall_all (s1\<lparr> trace := trace s1 @ [UninstallFailed m] \<rparr>) ms)"
      by (rule stretch_trans)
    with u Inl show ?thesis by simp
  next
    case (Inr v)
    from s1 Cons.IH have "stretch no_install s (uninstall_all s1 ms)" by (rule stretch_trans)
    with u Inr show ?thesis by simp
  qed
qed

subsection \<open>Downloading\<close>

lemma downloadMod_stretch: "stretch no_install s (snd (downloadMod e s r))"
proof (cases "fetch e (''https://beatmods.com'' @ url (heap s r))")
  case None
  then show ?thesis by (simp add: downloadMod_def stretch_refl)
next
  case (Some bytes)
  let ?p = "Cache (getArchiveName (heap s r))"
  show ?thesis
  proof (cases "writable e ?p")
    case False
    with Some show ?thesis by (simp add: downloadMod_def stretch_refl)
  next
    case True
    let ?s1 = "write_file s r ?p bytes"
    let ?s2 = "?s1\<lparr> heap := (heap ?s1)(r := (heap ?s1 r)\<lparr> archive := Some ?p \<rparr>) \<rparr>"
    have a: "stretch no_install s ?s1"
      by (rule write_file_stretch) (simp add: no_install_def)
    have b: "stretch no_install ?s1 ?s2"
      by (rule heap_flags_stretch) simp
    from a b have "stretch no_install s ?s2" by (rule stretch_trans)
    with Some True show ?thesis
      by (simp add: downloadMod_def Let_def split: sum.splits)
  qed
qed

lemma download_all_stretch: "stretch no_install s (fst (download_all e s install ms))"
proof (induction ms arbitrary: s install)
  case Nil
  show ?case by (simp add: stretch_refl)
next
  case (Cons m ms)
  show ?case
  proof (cases "archive (heap s m) \<noteq> None")
    case True
    with Cons.IH [of s install] show ?thesis by simp
  next
    case False
    obtain res s1 where d: "downloadMod e s m = (res, s1)" by (cases "downloadMod e s m")
    have s1: "stretch no_install s s1" using downloadMod_stretch [of s e m] d by simp
    show ?thesis
    proof (cases res)
      case (Inl err)
      have "stretch no_install s (s1\<lparr> trace := trace s1 @ [DownloadFailed m] \<rparr>)"
        using s1 by (rule stretch_then_event) (simp add: no_install_def)
      from this Cons.IH have
        "stretch no_install s
           (fst (download_all e (s1\<lparr> trace := trace s1 @ [DownloadFailed m] \<rparr>)
                   (remove1 m install) ms))"
        by (rule stretch_trans)
      with False d Inl show ?thesis by simp
    next
      case (Inr ok)
      from s1 Cons.IH have "stretch no_install s (fst (download_all e s1 install ms))"
        by (rule stretch_trans)
      with False d Inr show ?thesis by simp
    qed
  qed
qed

subsection \<open>Installing\<close>

lemma extract_all_stretch:
  assumes "\<And>p. P (FileWritten r (Root p))"
  shows "stretch P s (snd (extract_all e s r ms))"
proof (induction ms arbitrary: s)
  case Nil
  show ?case by (simp add: stretch_refl)
next
  case (Cons m ms)
  show ?case
  proof (cases "is_dir m")
    case True
    with Cons.IH [of s] show ?thesis by simp
  next
    case False
    show ?thesis
    proof (cases "writable e (Root (filename m))")
      case True
      let ?s1 = "write_file s r (Root (filename m)) (content m)"
      have "stretch P s ?s1" by (rule write_file_stretch) (rule assms)
      from this Cons.IH [of ?s1] have "stretch P s (snd (extract_all e ?s1 r ms))"
        by (rule stretch_trans)
      with False True show ?thesis by simp
    next
      case no: False
      with False show ?thesis by (simp add: stretch_refl)
    qed
  qed
qed

lemma writeSpec_stretch:
  assumes "\<And>p. P (FileWritten r (Meta p))"
  shows "stretch P s (snd (writeSpec e s r))"
  by (simp add: writeSpec_def Let_def stretch_refl write_file_stretch assms)

lemma installMod_stretch:
  assumes "\<And>p. P (FileWritten r (Root p))" "\<And>p. P (FileWritten r (Meta p))"
  shows "stretch P s (snd (installMod e s r))"
proof -
  let ?p1 = "case archive (heap s r) of Some p \<Rightarrow> p | None \<Rightarrow> Cache (getArchiveName (heap s r))"
  show ?thesis
  proof (cases "map_of (fs s) ?p1")
    case None
    then show ?thesis by (simp add: installMod_def Let_def stretch_refl)
  next
    case (Some bytes)
    show ?thesis
    proof (cases "zip_open e bytes")
      case None
      with Some show ?thesis by (simp add: installMod_def Let_def stretch_refl)
    next
      case zs: (Some ms)
      obtain res s1 where x: "extract_all e s r ms = (res, s1)"
        by (cases "extract_all e s r ms")
      have s1: "stretch P s s1"
        using extract_all_stretch [of P r s e ms] assms(1) x by simp
      show ?thesis
      proof (cases res)
        case (Inl err)
        with Some zs x s1 show ?thesis by (simp add: installMod_def Let_def)
      next
        case (Inr u)
        let ?s2 = "s1\<lparr> heap := (heap s1)(r := (heap s1 r)
                          \<lparr> is_remote := FBool False, is_local := FBool True,
                            need_install := FBool False \<rparr>) \<rparr>"
        have "stretch P s1 ?s2" by (rule heap_flags_stretch) simp
        with s1 have "stretch P s ?s2" by (rule stretch_trans)
        from this writeSpec_stretch [of P r ?s2 e, OF assms(2)]
        have "stretch P s (snd (writeSpec e ?s2 r))" by (rule stretch_trans)
        with Some zs x Inr show ?thesis by (simp add: installMod_def Let_def)
      qed
    qed
  qed
qed

lemma install_all_stretch:
  "stretch (installs_of (\<lambda>m. m \<in> set ms)) s (install_all e s ms)"
proof (induction ms arbitrary: s)
  case Nil
  show ?case by (simp add: stretch_refl)
next
  case (Cons m ms)
  let ?P = "installs_of (\<lambda>x. x \<in> set (m # ms))"
  obtain res s1 where i: "installMod e s m = (res, s1)" by (cases "installMod e s m")
  have s1: "stretch ?P s s1"
    using installMod_stretch [of ?P m s e] i by (simp add: installs_of_def)
  have rest: "stretch ?P t (install_all e t ms)" for t
    using Cons.IH [of t] by (rule stretch_mono) (auto simp: installs_of_def split: option.splits)
  show ?case
  proof (cases res)
    case (Inl err)
    have "stretch ?P s (s1\<lparr> trace := trace s1 @ [InstallFailed m] \<rparr>)"
      using s1 by (rule stretch_then_event) (simp add: installs_of_def)
    from this rest have
      "stretch ?P s (install_all e (s1\<lparr> trace := trace s1 @ [InstallFailed m] \<rparr>) ms)"
      by (rule stretch_trans)
    with i Inl show ?thesis by simp
  next
    case (Inr u)
    from s1 rest have "stretch ?P s (install_all e s1 ms)" by (rule stretch_trans)
    with i Inr show ?thesis by simp
  qed
qed

subsection \<open>Cleaning up\<close>

lemma foldl_os_remove_stretch:
  "stretch no_install s
     (foldl (\<lambda>t p. if map_of (fs t) p = None then t else os_remove t p) s ps)"
proof (induction ps arbitrary: s)
  case Nil
  show ?case by (simp add: stretch_refl)
next
  case (Cons p ps)
  let ?t = "if map_of (fs s) p = None then s else os_remove s p"
  have "stretch no_install s ?t"
    by (simp add: stretch_refl os_remove_stretch no_install_def)
  from this Cons.IH [of ?t] show ?case
    by (simp only: foldl_Cons) (rule stretch_trans)
qed

lemma cleanup_stretch: "stretch no_install s (cleanup e s)"
  unfolding cleanup_def by (rule foldl_os_remove_stretch)

subsection \<open>The phases put together\<close>

lemma patch_phases: "patch e s = cleanup e (after_generic e s)"
  by (simp add: patch_def after_generic_def after_core_def after_download_def
      reduced_install_set_def after_uninstall_def Let_def split: prod.splits)

lemma after_uninstall_stretch: "stretch no_install s (after_uninstall s)"
  unfolding after_uninstall_def by (rule uninstall_all_stretch)

lemma after_download_stretch: "stretch no_install s (after_download e s)"
  unfolding after_download_def
  using after_uninstall_stretch download_all_stretch by (rule stretch_trans)

lemma is_core_stretch: "stretch P s s' \<Longrightarrow> is_core s' m = is_core s m"
  by (simp add: stretch_def is_core_def)

lemma after_core_stretch:
  "stretch (installs_of (is_core s)) (after_download e s) (after_core e s)"
  unfolding after_core_def
  by (rule stretch_mono [OF install_all_stretch])
     (auto simp: installs_of_def is_core_stretch [OF after_download_stretch]
        split: option.splits)

lemma after_generic_stretch:
  "stretch (installs_of (\<lambda>m. \<not> is_core s m)) (after_core e s) (after_generic e s)"
  unfolding after_generic_def
  by (rule stretch_mono [OF install_all_stretch])
     (auto simp: installs_of_def is_core_stretch [OF after_download_stretch]
        split: option.splits)

lemma patch_stretch: "stretch (\<lambda>ev. True) s (patch e s)"
proof -
  have a: "stretch (\<lambda>ev. True) s (after_download e s)"
    using after_download_stretch by (rule stretch_mono) simp
  have b: "stretch (\<lambda>ev. True) (after_download e s) (after_core e s)"
    using after_core_stretch by (rule stretch_mono) simp
  have c: "stretch (\<lambda>ev. True) (after_core e s) (after_generic e s)"
    using after_generic_stretch by (rule stretch_mono) simp
  have d: "stretch (\<lambda>ev. True) (after_generic e s) (patch e s)"
    unfolding patch_phases using cleanup_stretch by (rule stretch_mono) simp
  from a b c d show ?thesis by (blast intro: stretch_trans)
qed

section \<open>The queues across \<open>patch\<close> and \<open>refreshMods\<close>\<close>

lemma getLocal_loop_queues: "same_queues s (snd (getLocal_loop e s fl))"
proof (induction e s fl rule: getLocal_loop.induct)
  case (1 e s)
  show ?case by (simp add: same_queues_def)
next
  case (2 e s p bytes rest)
  then show ?case
    by (auto simp: same_queues_def alloc_def
        split: path.splits option.splits sum.splits if_splits)
qed

lemma getLocal_queues: "same_queues s (snd (getLocal e s))"
proof -
  have "same_queues (s\<lparr> local_list := [] \<rparr>)
          (snd (getLocal_loop e (s\<lparr> local_list := [] \<rparr>) (listdir e (fs s))))"
    by (rule getLocal_loop_queues)
  then show ?thesis
    by (auto simp: getLocal_def same_queues_def split: prod.splits sum.splits)
qed

lemma getRemote_loop_queues: "same_queues s (snd (getRemote_loop s ms))"
proof (induction ms arbitrary: s)
  case Nil
  show ?case by (simp add: same_queues_def)
next
  case (Cons m ms)
  show ?case
  proof (cases "fromBeatMods m (app_type s)")
    case (Inl err)
    then show ?thesis by (simp add: same_queues_def)
  next
    case (Inr spec)
    let ?t = "s\<lparr> heap := (heap s)(next_ref s := spec), next_ref := Suc (next_ref s),
                  remote := remote s @ [next_ref s] \<rparr>"
    from Cons.IH [of ?t] have "same_queues s (snd (getRemote_loop ?t ms))"
      by (simp add: same_queues_def)
    with Inr show ?thesis by (simp add: alloc_def)
  qed
qed

lemma getRemote_queues: "same_queues s (snd (getRemote e s))"
  using getRemote_loop_queues [of "s\<lparr> remote := [] \<rparr>"]
  by (auto simp: getRemote_def same_queues_def split: option.splits)

lemma check_remote_queues:
  "need_install_list (check_remote s spec rs) = need_install_list s \<and>
   need_uninstall_list (check_remote s spec rs) = need_uninstall_list s"
  by (induction rs arbitrary: s) (simp_all add: Let_def)

lemma check_updates_queues:
  "need_install_list (check_updates s ls) = need_install_list s \<and>
   need_uninstall_list (check_updates s ls) = need_uninstall_list s"
  by (induction ls arbitrary: s) (simp_all add: check_remote_queues)

lemma refreshMods_clears:
  "need_install_list (snd (refreshMods e s u)) = [] \<and>
   need_uninstall_list (snd (refreshMods e s u)) = [] \<and>
   need_update_list (snd (refreshMods e s False)) = []"
proof -
  let ?s0 = "s\<lparr> need_install_list := [], need_uninstall_list := [], need_update_list := [] \<rparr>"
  obtain r1 s1 where l: "getLocal e ?s0 = (r1, s1)" by (cases "getLocal e ?s0")
  obtain r2 s2 where r: "getRemote e s1 = (r2, s2)" by (cases "getRemote e s1")
  have q1: "same_queues ?s0 s1" using getLocal_queues [of ?s0 e] l by simp
  have q2: "same_queues s1 s2" using getRemote_queues [of s1 e] r by simp
  from q1 q2 l r show ?thesis
    by (cases r1; cases r2)
       (simp_all add: refreshMods_def Let_def same_queues_def check_updates_queues)
qed

text \<open>
  Claim C10. \<open>patch\<close> returns with the install queue, the uninstall queue and the
  update queue exactly as they were, element for element and in the same order (the
  catalogs \<open>local\<close> and \<open>remote\<close> too); whatever was installed or uninstalled stays
  queued. The queues are emptied by \<open>refreshMods\<close>, whether it returns or raises (the
  update queue is filled again there when the update check is asked for).
\<close>

theorem patch_keeps_queues:
  "need_install_list (patch e s) = need_install_list s \<and>
   need_uninstall_list (patch e s) = need_uninstall_list s \<and>
   need_update_list (patch e s) = need_update_list s \<and>
   local_list (patch e s) = local_list s \<and> remote (patch e s) = remote s \<and>
   need_install_list (snd (refreshMods e (patch e s) u)) = [] \<and>
   need_uninstall_list (snd (refreshMods e (patch e s) u)) = [] \<and>
   need_update_list (snd (refreshMods e (patch e s) False)) = []"
  using patch_stretch [of s e] refreshMods_clears [of e "patch e s" u]
  by (simp add: stretch_def)

theorem patch_keeps_queues_witness:
  "need_install_list demo_state = [0, 1] \<and>
   need_install_list (patch demo_env demo_state) = [0, 1] \<and>
   FileWritten 1 (Meta ''C_2.1.json'') \<in> set (trace (patch demo_env demo_state)) \<and>
   is_local (heap (patch demo_env demo_state) 1) = FBool True \<and>
   need_install_list (snd (refreshMods demo_env (patch demo_env demo_state) True)) = []"
proof -
  have a: "need_install_list demo_state = [0, 1]" by (simp add: demo_state_def)
  have b: "FileWritten 1 (Meta ''C_2.1.json'') \<in> set (trace (patch demo_env demo_state))"
    by code_simp
  have c: "is_local (heap (patch demo_env demo_state) 1) = FBool True"
    by code_simp
  from patch_keeps_queues [of demo_env demo_state True] a b c show ?thesis by simp
qed

section \<open>Core packages first\<close>

subsection \<open>What a successful installation does\<close>





subsection \<open>Files stay, marks stay\<close>

lemma present_update: "present (s\<lparr> fs := AList.update p b (fs s) \<rparr>) q \<longleftrightarrow> q = p \<or> present s q"
  by (simp add: present_def update_conv')









subsection \<open>Every record of the install set has its turn\<close>





subsection \<open>The order of the events\<close>






section \<open>Failed downloads\<close>

text \<open>A record whose download raises is taken out of the install list, and the loop
  goes on with the next record.\<close>

lemma download_all_failure:
  assumes "archive (heap s m) = None" "downloadMod e s m = (Inl err, s1)"
  shows "download_all e s install (m # ms) =
           download_all e (s1\<lparr> trace := trace s1 @ [DownloadFailed m] \<rparr>) (remove1 m install) ms"
  using assms by simp

text \<open>A download that does not reach the server raises; so does one whose archive holds
  a file with another hash than the listing promises. A download whose bytes are not an
  archive does not raise: \<open>_verifyArchive\<close> returns \<open>False\<close> and \<open>_downloadMod\<close> returns
  \<open>True\<close> all the same.\<close>

lemma downloadMod_unopenable:
  assumes "fetch e (''https://beatmods.com'' @ url (heap s r)) = Some bytes"
    and "writable e (Cache (getArchiveName (heap s r)))"
    and "zip_open e bytes = None"
    and "build_hashes (files (heap s r)) [] = Inr hs"
  shows "fst (downloadMod e s r) = Inr True"
proof -
  define p where "p = Cache (getArchiveName (heap s r))"
  define s2 where
    "s2 = (write_file s r p bytes)
            \<lparr> heap := (heap (write_file s r p bytes))
                        (r := (heap (write_file s r p bytes) r)\<lparr> archive := Some p \<rparr>) \<rparr>"
  have f: "files (heap s2 r) = files (heap s r)"
    by (simp add: s2_def write_file_def)
  have m: "map_of (fs s2) p = Some bytes"
    by (simp add: s2_def write_file_def update_conv')
  have v: "verifyArchive e s2 r p = Inr False"
    by (simp add: verifyArchive_def f m assms(3,4) and_then_def)
  have "downloadMod e s r = (Inr True, s2)"
    using assms(1,2) v by (simp add: downloadMod_def Let_def p_def [symmetric] s2_def [symmetric])
  then show ?thesis by simp
qed

text \<open>
  Claim C3 on the code. In \<open>faulty_state\<close> the records \<open>N\<close> (3), \<open>H\<close> (4), \<open>B\<close> (2)
  and \<open>C\<close> (1) are queued. The download of \<open>N\<close> fails in the network and the one of
  \<open>H\<close> on a hash: both leave the install set, as the claim says. The download of \<open>B\<close>
  yields bytes that are no archive: the verification returns \<open>False\<close>, the download
  reports success, \<open>B\<close> stays in the install set, and phase four attempts to install it
  (and fails). \<open>C\<close> is installed.
\<close>

theorem patch_keeps_corrupt_archive:
  "install_set (after_uninstall faulty_state) = [3, 4, 2, 1] \<and>
   fst (downloadMod demo_env faulty_state 3) = Inl OSError \<and>
   fst (downloadMod demo_env faulty_state 2) = Inr True \<and>
   verifyArchive demo_env (after_download demo_env faulty_state) 2 (Cache ''B_3.zip'') = Inr False \<and>
   reduced_install_set demo_env faulty_state = [2, 1] \<and>
   trace (patch demo_env faulty_state) =
     [DownloadFailed 3, FileWritten 4 (Cache ''H_1.zip''), DownloadFailed 4,
      FileWritten 2 (Cache ''B_3.zip''), FileWritten 1 (Cache ''C_2.1.zip''),
      InstallFailed 2, FileWritten 1 (Root ''IPA/core.dll''),
      FileWritten 1 (Meta ''C_2.1.json''), FileRemoved (Cache ''H_1.zip''),
      FileRemoved (Cache ''B_3.zip''), FileRemoved (Cache ''C_2.1.zip'')]"
  by code_simp

section \<open>The key of an archive without a manifest\<close>

lemma read_name_member: "n \<in> set (map filename ms) \<Longrightarrow> \<exists>b. read_name ms n = Inr b"
proof -
  assume "n \<in> set (map filename ms)"
  then have "\<exists>m \<in> set (rev ms). filename m = n" by auto
  then obtain m where "find (\<lambda>m. filename m = n) (rev ms) = Some m"
    by (cases "find (\<lambda>m. filename m = n) (rev ms)") (auto simp: find_None_iff)
  then show ?thesis by (simp add: read_name_def)
qed

lemma archive_hashes_total:
  "set ns \<subseteq> set (namelist f) \<Longrightarrow> \<exists>hs. archive_hashes e f ns = Inr hs"
proof (induction ns)
  case Nil
  show ?case by simp
next
  case (Cons n ns)
  then obtain hs where hs: "archive_hashes e f ns = Inr hs" by auto
  from Cons.prems have "n \<in> set (map filename (members f))" by (simp add: namelist_def)
  from read_name_member [OF this] obtain b where "read_name (members f) n = Inr b" ..
  with hs show ?case by (simp add: and_then_def)
qed

lemma fromArchive_synthesized:
  assumes "archive_spec e f = None"
  shows "\<exists>r. fromArchive e f = Inr r \<and> mod_id r = md5hex e (concat (namelist f)) \<and>
             name r = basename (zfilename f) \<and> version r = [1, 0, 0] \<and>
             archive r = Some (Ext (zfilename f))"
proof -
  obtain hs where "archive_hashes e f (namelist f) = Inr hs"
    using archive_hashes_total [of "namelist f" f e] by auto
  with assms show ?thesis
    by (simp add: fromArchive_def and_then_def archive_key_def ModSpec_init_def)
qed

lemma md5_ab: "md5_hexdigest ''ab'' = ''187ef4436122d1cc2f40dc2b92f0eba0''"
  by code_simp

lemma md5_ba: "md5_hexdigest ''ba'' = ''07159c47ee1b19ae4fb9c40d480856c4''"
  by code_simp

lemma zip_no_spec: "archive_spec e zip_ab = None" "archive_spec e zip_ba = None"
  by (simp_all add: archive_spec_def zip_ab_def zip_ba_def read_name_def)

text \<open>
  Claim C9, as amended. For an archive without a usable \<open>spec.json\<close>, \<open>fromArchive\<close>
  always yields a record, and its id is the MD5 hash of the entry names joined in the
  order the archive lists them (\<open>namelist()\<close>; nothing sorts them). Two such archives
  that list the same names in the same order get the same id.
\<close>

theorem fromArchive_key:
  "(archive_spec e f = None \<longrightarrow>
      map_sum id mod_id (fromArchive e f) = Inr (md5hex e (concat (namelist f)))) \<and>
   (archive_spec e f = None \<and> archive_spec e g = None \<and> namelist f = namelist g \<longrightarrow>
      map_sum id mod_id (fromArchive e f) = map_sum id mod_id (fromArchive e g))"
proof -
  have "map_sum id mod_id (fromArchive e f) = Inr (md5hex e (concat (namelist f)))"
    if "archive_spec e f = None" for f
    using fromArchive_synthesized [OF that] by auto
  then show ?thesis by simp
qed

theorem fromArchive_key_witness:
  "archive_spec md5_env zip_ab = None \<and> namelist zip_ab = [''a'', ''b''] \<and>
   map_sum id mod_id (fromArchive md5_env zip_ab) = Inr ''187ef4436122d1cc2f40dc2b92f0eba0''"
proof -
  have n: "namelist zip_ab = [''a'', ''b'']" by (simp add: namelist_def zip_ab_def)
  have z: "archive_spec md5_env zip_ab = None" by (rule zip_no_spec)
  have k: "map_sum id mod_id (fromArchive md5_env zip_ab) =
          Inr (md5hex md5_env (concat (namelist zip_ab)))"
    by (rule fromArchive_key [of md5_env zip_ab zip_ab, THEN conjunct1, rule_format]) (rule z)
  have h: "md5hex md5_env (concat (namelist zip_ab)) = ''187ef4436122d1cc2f40dc2b92f0eba0''"
    by (simp add: n md5_env_def md5_ab)
  have "map_sum id mod_id (fromArchive md5_env zip_ab) = Inr ''187ef4436122d1cc2f40dc2b92f0eba0''"
    unfolding k h by (rule refl)
  with z n show ?thesis by (intro conjI)
qed

text \<open>
  Claim C9, as the specification states it, fails: the archives \<open>zip_ab\<close> and
  \<open>zip_ba\<close> hold the same set of entry names and get different ids, because the names
  are hashed in archive order.
\<close>

theorem fromArchive_order_matters:
  "set (namelist zip_ab) = set (namelist zip_ba) \<and>
   map_sum id mod_id (fromArchive md5_env zip_ab) = Inr ''187ef4436122d1cc2f40dc2b92f0eba0'' \<and>
   map_sum id mod_id (fromArchive md5_env zip_ba) = Inr ''07159c47ee1b19ae4fb9c40d480856c4'' \<and>
   map_sum id mod_id (fromArchive md5_env zip_ab) \<noteq> map_sum id mod_id (fromArchive md5_env zip_ba)"
proof -
  have n: "namelist zip_ab = [''a'', ''b'']" "namelist zip_ba = [''b'', ''a'']"
    by (simp_all add: namelist_def zip_ab_def zip_ba_def)
  from fromArchive_synthesized [OF zip_no_spec(1), of md5_env]
  have a: "map_sum id mod_id (fromArchive md5_env zip_ab) = Inr ''187ef4436122d1cc2f40dc2b92f0eba0''"
    by (auto simp: n md5_env_def md5_ab)
  from fromArchive_synthesized [OF zip_no_spec(2), of md5_env]
  have b: "map_sum id mod_id (fromArchive md5_env zip_ba) = Inr ''07159c47ee1b19ae4fb9c40d480856c4''"
    by (auto simp: n md5_env_def md5_ba)
  have s: "set (namelist zip_ab) = set (namelist zip_ba)" by (auto simp: n)
  have d: "map_sum id mod_id (fromArchive md5_env zip_ab) \<noteq>
           map_sum id mod_id (fromArchive md5_env zip_ba)"
    unfolding a b by simp
  from s a b d show ?thesis by (intro conjI)
qed

end
